theory Spec2Isabelle
  imports Complex_Main
begin

section \<open>Image utilities: the adaptive compressor\<close>

text \<open>
  JavaScript numbers are modelled as \<^typ>\<open>real\<close>: exact arithmetic, without NaN, the
  infinities and rounding of IEEE doubles. Pixel sizes of a decoded bitmap are natural
  numbers. Everything the functions obtain from the browser (decoding a data URL, the 2d
  context, the codec behind \<open>convertToBlob\<close>) is a field of the record \<open>host\<close>, so every
  theorem holds for whatever the browser answers.
\<close>

datatype image_format = Jpeg | Webp

record bitmap =
  bmp_width :: nat
  bmp_height :: nat

record host =
  decode :: "string \<Rightarrow> string + bitmap"
    \<comment> \<open>\<open>createImageBitmapFromUrl\<close>: \<open>Inl\<close> when fetch or decode rejects\<close>
  context2d :: bool
    \<comment> \<open>\<open>canvas.getContext('2d')\<close> is not null\<close>
  encode :: "bitmap \<Rightarrow> int \<Rightarrow> int \<Rightarrow> image_format \<Rightarrow> real \<Rightarrow> string + string"
    \<comment> \<open>draw the bitmap on a canvas of the given size, \<open>convertToBlob\<close> at the given
        quality and read the blob as a data URL\<close>

record encoded =
  dataUrl :: string
  mimeType :: image_format

record compress_options =
  scale :: "real option"
  quality :: "real option"
  format :: "image_format option"
  maxSizeBytes :: "real option"

text \<open>One call of \<open>compressImageOnce\<close>, with the parameters it was given and what it returned.\<close>

record attempt =
  att_scale :: real
  att_quality :: real
  att_result :: "string + encoded"

definition MAX_ATTEMPTS :: nat where "MAX_ATTEMPTS = 10"
definition MIN_QUALITY :: real where "MIN_QUALITY = 0.2"
definition MIN_SCALE :: real where "MIN_SCALE = 0.3"
definition QUALITY_THRESHOLD :: real where "QUALITY_THRESHOLD = 0.3"
definition REDUCTION_FACTOR :: real where "REDUCTION_FACTOR = 0.85"

text \<open>\<open>str.split(',')\<close>: the pieces between the commas, at least one piece.\<close>

fun split_comma :: "string \<Rightarrow> string list" where
  "split_comma [] = [[]]"
| "split_comma (c # cs) =
     (if c = CHR '','' then [] # split_comma cs
      else (case split_comma cs of [] \<Rightarrow> [[c]] | p # ps \<Rightarrow> (c # p) # ps))"

text \<open>\<open>dataUrl.split(',')[1] || dataUrl\<close>: the second piece when there is one and it is
  not empty, else the whole string.\<close>

definition getBase64Size :: "string \<Rightarrow> nat" where
  "getBase64Size url =
     (case split_comma url of
        _ # b # _ \<Rightarrow> if b = [] then length url else length b
      | _ \<Rightarrow> length url)"

text \<open>\<open>Math.round\<close> rounds halves up.\<close>

definition Math_round :: "real \<Rightarrow> int" where
  "Math_round x = \<lfloor>x + 1 / 2\<rfloor>"

definition compressImageOnce ::
  "host \<Rightarrow> string \<Rightarrow> real \<Rightarrow> real \<Rightarrow> image_format \<Rightarrow> string + encoded" where
  "compressImageOnce h imageDataUrl sc q fmt =
     (case decode h imageDataUrl of
        Inl e \<Rightarrow> Inl e
      | Inr imageBitmap \<Rightarrow>
          let newWidth = Math_round (real (bmp_width imageBitmap) * sc);
              newHeight = Math_round (real (bmp_height imageBitmap) * sc)
          in if \<not> context2d h then Inl ''Failed to get 2D context from OffscreenCanvas''
             else (case encode h imageBitmap newWidth newHeight fmt q of
                     Inl e \<Rightarrow> Inl e
                   | Inr url \<Rightarrow> Inr \<lparr>dataUrl = url, mimeType = fmt\<rparr>))"

text \<open>
  The \<open>while\<close> loop of \<open>compressImage\<close>. The state is the loop's variables
  (\<open>currentScale\<close>, \<open>currentQuality\<close>, \<open>result\<close>, \<open>attempts\<close>); the value is what
  \<open>compressImage\<close> returns (\<open>Inl\<close> when a \<open>compressImageOnce\<close> call throws) together
  with the calls of \<open>compressImageOnce\<close> the loop made, in order.
\<close>

function compress_loop ::
  "host \<Rightarrow> string \<Rightarrow> image_format \<Rightarrow> real \<Rightarrow> real \<Rightarrow> real \<Rightarrow> encoded \<Rightarrow> nat
     \<Rightarrow> (string + encoded) \<times> attempt list" where
  "compress_loop h url fmt maxSize currentScale currentQuality result attempts =
     (if real (getBase64Size (dataUrl result)) > maxSize \<and> attempts < MAX_ATTEMPTS then
        let attempts' = attempts + 1;
            currentQuality' =
              (if currentQuality > QUALITY_THRESHOLD
               then max MIN_QUALITY (currentQuality * REDUCTION_FACTOR)
               else currentQuality);
            currentScale' =
              (if currentQuality > QUALITY_THRESHOLD
               then currentScale
               else max MIN_SCALE (currentScale * REDUCTION_FACTOR));
            r = compressImageOnce h url currentScale' currentQuality' fmt;
            a = \<lparr>att_scale = currentScale', att_quality = currentQuality', att_result = r\<rparr>
        in (case r of
              Inl e \<Rightarrow> (Inl e, [a])
            | Inr result' \<Rightarrow>
                (case compress_loop h url fmt maxSize currentScale' currentQuality' result' attempts'
                 of (res, as) \<Rightarrow> (res, a # as)))
      else (Inr result, []))"
  by pat_completeness auto
termination
  by (relation "measure (\<lambda>(h, url, fmt, maxSize, s, q, r, attempts). MAX_ATTEMPTS - attempts)")
     auto

declare compress_loop.simps [simp del]

text \<open>
  \<open>compressImage\<close>: the defaults of the destructuring, the single pass when
  \<open>maxSizeBytes\<close> is absent or zero (\<open>!maxSizeBytes\<close>), else the first pass and the loop.
\<close>

definition compressImage ::
  "host \<Rightarrow> string \<Rightarrow> compress_options \<Rightarrow> (string + encoded) \<times> attempt list" where
  "compressImage h imageDataUrl options =
     (let sc = (case scale options of None \<Rightarrow> 1 | Some s \<Rightarrow> s);
          q = (case quality options of None \<Rightarrow> 0.8 | Some q \<Rightarrow> q);
          fmt = (case format options of None \<Rightarrow> Jpeg | Some f \<Rightarrow> f);
          first = compressImageOnce h imageDataUrl sc q fmt;
          a = \<lparr>att_scale = sc, att_quality = q, att_result = first\<rparr>
      in case maxSizeBytes options of
           None \<Rightarrow> (first, [a])
         | Some m \<Rightarrow>
             if m = 0 then (first, [a])
             else (case first of
                     Inl e \<Rightarrow> (Inl e, [a])
                   | Inr result \<Rightarrow>
                       (case compress_loop h imageDataUrl fmt m sc q result 0
                        of (res, as) \<Rightarrow> (res, a # as))))"

section \<open>Image utilities: stitching and cropping\<close>

text \<open>
  A canvas is its size as passed to \<open>new OffscreenCanvas\<close> and the drawing calls made on
  its context, in order. \<open>DrawImage img sx sy sw sh dx dy dw dh\<close> is the nine-argument
  \<open>drawImage\<close>: the source rectangle of \<open>img\<close> and the destination rectangle. Creating
  a canvas and drawing a decoded bitmap are taken not to fail; getting the context can.
\<close>

datatype draw_op =
    FillRect string real real real real
  | DrawImage bitmap real real real real real real real real

record canvas =
  canvas_width :: real
  canvas_height :: real
  ops :: "draw_op list"

record image_part =
  part_dataUrl :: string
  part_y :: real

text \<open>
  The \<open>for\<close> loop of \<open>stitchImages\<close>; the state is the canvas and the lines written with
  \<open>console.error\<close>. A part that fails to decode lands in the \<open>catch\<close> inside the loop.
\<close>

fun stitch_parts ::
  "host \<Rightarrow> real \<Rightarrow> image_part list \<Rightarrow> canvas \<times> string list \<Rightarrow> canvas \<times> string list" where
  "stitch_parts h totalHeightPx [] st = st"
| "stitch_parts h totalHeightPx (part # parts) (cv, errors) =
     (case decode h (part_dataUrl part) of
        Inl e \<Rightarrow>
          stitch_parts h totalHeightPx parts (cv, errors @ [''Error stitching image part: '' @ e])
      | Inr img \<Rightarrow>
          let sWidth = real (bmp_width img);
              sHeight = real (bmp_height img);
              dy = part_y part;
              sHeight' = (if dy + sHeight > totalHeightPx then totalHeightPx - dy else sHeight)
          in if sHeight' \<le> 0 then stitch_parts h totalHeightPx parts (cv, errors)
             else stitch_parts h totalHeightPx parts
                    (cv\<lparr>ops := ops cv @ [DrawImage img 0 0 sWidth sHeight' 0 dy sWidth sHeight']\<rparr>,
                     errors))"

definition stitchImages ::
  "host \<Rightarrow> image_part list \<Rightarrow> real \<Rightarrow> real \<Rightarrow> string + canvas \<times> string list" where
  "stitchImages h parts totalWidthPx totalHeightPx =
     (let cv = \<lparr>canvas_width = totalWidthPx, canvas_height = totalHeightPx, ops = []\<rparr>
      in if \<not> context2d h then Inl ''Unable to get canvas context''
         else let cv' = cv\<lparr>ops := ops cv @
                          [FillRect ''#FFFFFF'' 0 0 (canvas_width cv) (canvas_height cv)]\<rparr>
              in Inr (stitch_parts h totalHeightPx parts (cv', [])))"

record crop_rect =
  rect_x :: real
  rect_y :: real
  rect_width :: real
  rect_height :: real

text \<open>
  \<open>cropAndResizeImage\<close>. The four \<open>if\<close> statements that move the rectangle into the
  image are the four \<open>let\<close> steps; \<open>dpr\<close> defaults to 1; a target size that is absent or
  zero is not used (\<open>targetWidthOpt ? \<dots> : sWidth\<close>).
\<close>

definition cropAndResizeImage ::
  "host \<Rightarrow> string \<Rightarrow> crop_rect \<Rightarrow> real option \<Rightarrow> real option \<Rightarrow> real option \<Rightarrow> string + canvas" where
  "cropAndResizeImage h originalDataUrl cropRectPx dprOpt targetWidthOpt targetHeightOpt =
     (case decode h originalDataUrl of
        Inl e \<Rightarrow> Inl e
      | Inr img \<Rightarrow>
          let dpr = (case dprOpt of None \<Rightarrow> 1 | Some d \<Rightarrow> d);
              sx = rect_x cropRectPx;
              sy = rect_y cropRectPx;
              sWidth = rect_width cropRectPx;
              sHeight = rect_height cropRectPx;
              (sWidth, sx) = (if sx < 0 then (sWidth + sx, 0) else (sWidth, sx));
              (sHeight, sy) = (if sy < 0 then (sHeight + sy, 0) else (sHeight, sy));
              sWidth = (if sx + sWidth > real (bmp_width img) then real (bmp_width img) - sx
                        else sWidth);
              sHeight = (if sy + sHeight > real (bmp_height img) then real (bmp_height img) - sy
                         else sHeight)
          in if sWidth \<le> 0 \<or> sHeight \<le> 0
             then Inl ''Invalid calculated crop size (<=0). Element may not be visible or fully captured.''
             else
               let finalCanvasWidthPx =
                     (case targetWidthOpt of
                        None \<Rightarrow> sWidth
                      | Some t \<Rightarrow> if t = 0 then sWidth else t * dpr);
                   finalCanvasHeightPx =
                     (case targetHeightOpt of
                        None \<Rightarrow> sHeight
                      | Some t \<Rightarrow> if t = 0 then sHeight else t * dpr)
               in if \<not> context2d h then Inl ''Unable to get canvas context''
                  else Inr \<lparr>canvas_width = finalCanvasWidthPx,
                            canvas_height = finalCanvasHeightPx,
                            ops = [DrawImage img sx sy sWidth sHeight
                                     0 0 finalCanvasWidthPx finalCanvasHeightPx]\<rparr>)"

text \<open>
  The rectangle of the specification: the requested rectangle cut to the raster, as
  \<open>(x, y, width, height)\<close>. It is compared with what \<open>cropAndResizeImage\<close> computes.
\<close>

definition clamped_rect :: "bitmap \<Rightarrow> crop_rect \<Rightarrow> real \<times> real \<times> real \<times> real" where
  "clamped_rect img r =
     (max 0 (rect_x r),
      max 0 (rect_y r),
      min (rect_x r + rect_width r) (real (bmp_width img)) - max 0 (rect_x r),
      min (rect_y r + rect_height r) (real (bmp_height img)) - max 0 (rect_y r))"

section \<open>The file upload tool\<close>

subsection \<open>Staging a remote or inline file through the native host\<close>

text \<open>
  \<open>prepareFileFromRemote\<close> builds a promise around a timer, a message listener and one
  outbound message. The record \<open>stager\<close> is what exists once the executor of the promise
  has run: whether the 30000 ms timer is still armed, whether \<open>handleMessage\<close> is still a
  listener of \<open>chrome.runtime.onMessage\<close>, what the promise has resolved with (\<open>None\<close>
  while pending, \<open>Some None\<close> for \<open>null\<close>), and how often the listener was added and
  removed and a message was sent. What happens afterwards is a list of events.
\<close>

record native_message =
  msg_type :: string
  msg_responseToRequestId :: "string option"
  msg_payload_success :: bool
  msg_payload_filePath :: "string option"

datatype stage_event =
    Incoming native_message
  | TimerFires
  | SendRejects string

record stager =
  requestId :: string
  timer_armed :: bool
  listener_attached :: bool
  resolved :: "string option option"
  addListener_calls :: nat
  removeListener_calls :: nat
  sendMessage_calls :: nat
  stager_errors :: "string list"

definition truthy :: "string option \<Rightarrow> bool" where
  "truthy s = (case s of None \<Rightarrow> False | Some v \<Rightarrow> v \<noteq> [])"

text \<open>A promise keeps the value of the first \<open>resolve\<close>.\<close>

definition resolve :: "string option \<Rightarrow> stager \<Rightarrow> stager" where
  "resolve v st = (if resolved st = None then st\<lparr>resolved := Some v\<rparr> else st)"

definition clearTimeout :: "stager \<Rightarrow> stager" where
  "clearTimeout st = st\<lparr>timer_armed := False\<rparr>"

definition removeListener :: "stager \<Rightarrow> stager" where
  "removeListener st =
     st\<lparr>listener_attached := False, removeListener_calls := removeListener_calls st + 1\<rparr>"

definition console_error :: "string \<Rightarrow> stager \<Rightarrow> stager" where
  "console_error e st = st\<lparr>stager_errors := stager_errors st @ [e]\<rparr>"

definition stager_start :: "string \<Rightarrow> stager" where
  "stager_start rid =
     \<lparr>requestId = rid, timer_armed = True, listener_attached = True, resolved = None,
      addListener_calls = 1, removeListener_calls = 0, sendMessage_calls = 1,
      stager_errors = []\<rparr>"

definition handleMessage :: "native_message \<Rightarrow> stager \<Rightarrow> stager" where
  "handleMessage message st =
     (if msg_type message = ''file_operation_response'' \<and>
         msg_responseToRequestId message = Some (requestId st)
      then
        let st1 = removeListener (clearTimeout st)
        in if msg_payload_success message \<and> truthy (msg_payload_filePath message)
           then resolve (msg_payload_filePath message) st1
           else resolve None (console_error ''Native host failed to prepare file:'' st1)
      else st)"

text \<open>
  One event: an inbound message reaches \<open>handleMessage\<close> only while it is a listener,
  the timer's callback runs only while the timer is armed, and the \<open>catch\<close> of
  \<open>sendMessage\<close> runs when the outbound send rejects.
\<close>

fun stage_step :: "stager \<Rightarrow> stage_event \<Rightarrow> stager" where
  "stage_step st (Incoming message) =
     (if listener_attached st then handleMessage message st else st)"
| "stage_step st TimerFires =
     (if timer_armed st
      then resolve None (console_error ''File preparation request timed out''
                           (st\<lparr>timer_armed := False\<rparr>))
      else st)"
| "stage_step st (SendRejects e) =
     resolve None (removeListener (clearTimeout
       (console_error (''Error sending message to background: '' @ e) st)))"

definition prepareFileFromRemote :: "string \<Rightarrow> stage_event list \<Rightarrow> stager" where
  "prepareFileFromRemote rid events = foldl stage_step (stager_start rid) events"

text \<open>What \<open>await\<close> on the promise yields; a promise left pending by the events has its
  timer armed, and the timer then resolves it with \<open>null\<close>.\<close>

definition awaited :: "stager \<Rightarrow> string option" where
  "awaited st = (case resolved st of None \<Rightarrow> None | Some v \<Rightarrow> v)"

subsection \<open>The tool and the browser around it\<close>

type_synonym tab_id = int

record upload_args =
  selector :: string
  filePath :: "string option"
  fileUrl :: "string option"
  base64Data :: "string option"
  fileName :: "string option"
  multiple :: "bool option"

record upload_data =
  ud_success :: bool
  ud_message :: string
  ud_files :: "string list"
  ud_selector :: string
  ud_fileCount :: nat

text \<open>The text of a success response is the serialisation of the data; the model keeps
  the data.\<close>

datatype content_item = Text string | Serialized upload_data

record ToolResult =
  content :: "content_item list"
  isError :: bool

definition createErrorResponse :: "string \<Rightarrow> ToolResult" where
  "createErrorResponse message = \<lparr>content = [Text message], isError = True\<rparr>"

definition createSuccessResponse :: "upload_data \<Rightarrow> ToolResult" where
  "createSuccessResponse d = \<lparr>content = [Serialized d], isError = False\<rparr>"

datatype cdp_command =
    DOM_enable
  | Runtime_enable
  | DOM_getDocument
  | DOM_querySelector int string
  | DOM_describeNode int
  | DOM_setFileInputFiles int "string list"
  | Runtime_evaluate string

text \<open>The calls the tool makes on the \<open>chrome\<close> API.\<close>

datatype chrome_call =
    TabsQuery
  | NativeRequest string "string option" "string option" string
  | GetTargets
  | DebuggerAttach tab_id
  | DebuggerSendCommand tab_id cdp_command
  | DebuggerDetach tab_id

record target_info =
  tgt_tabId :: "tab_id option"
  tgt_attached :: bool
  tgt_extensionId :: "string option"

record node_description =
  nodeName :: string
  attributes :: "string list option"

text \<open>
  What the browser answers during one call of \<open>execute\<close>: a rejected promise is an error
  message (\<open>Inl\<close>, or \<open>Some\<close> for a call without a value). \<open>removed_tabs k\<close> are the tabs
  whose \<open>chrome.tabs.onRemoved\<close> notification is delivered while the \<open>k\<close>-th awaited call
  is pending.
\<close>

record chrome_env =
  runtime_id :: string
  tabs_query :: "string + tab_id option list"
  new_request_id :: string
  stage_events :: "stage_event list"
  getTargets :: "string + target_info list"
  attach_rejects :: "string option"
  dom_enable_rejects :: "string option"
  runtime_enable_rejects :: "string option"
  getDocument :: "string + int"
  querySelector :: "int \<Rightarrow> string \<Rightarrow> string + int option"
  describeNode :: "int \<Rightarrow> string + node_description"
  setFileInputFiles_rejects :: "int \<Rightarrow> string list \<Rightarrow> string option"
  evaluate_rejects :: "string \<Rightarrow> string option"
  detach_rejects :: "string option"
  removed_tabs :: "nat \<Rightarrow> tab_id list"

text \<open>
  The tool's field \<open>activeDebuggers\<close>, the calls made on the browser so far, the lines
  written to the console about attaching, detaching and errors, and the number of
  awaited browser calls so far.
\<close>

record world =
  activeDebuggers :: "tab_id \<rightharpoonup> bool"
  calls :: "chrome_call list"
  console :: "string list"
  awaits :: nat

definition cleanupDebugger :: "tab_id \<Rightarrow> world \<Rightarrow> world" where
  "cleanupDebugger tabId w = w\<lparr>activeDebuggers := (activeDebuggers w)(tabId := None)\<rparr>"

text \<open>The listener the constructor adds to \<open>chrome.tabs.onRemoved\<close>.\<close>

definition onTabRemoved :: "tab_id \<Rightarrow> world \<Rightarrow> world" where
  "onTabRemoved tabId w =
     (if activeDebuggers w tabId \<noteq> None then cleanupDebugger tabId w else w)"

definition emit :: "chrome_call \<Rightarrow> world \<Rightarrow> world" where
  "emit c w = w\<lparr>calls := calls w @ [c]\<rparr>"

definition log_line :: "string \<Rightarrow> world \<Rightarrow> world" where
  "log_line l w = w\<lparr>console := console w @ [l]\<rparr>"

text \<open>Awaiting a browser call: the notifications that arrive meanwhile run first.\<close>

definition await :: "chrome_env \<Rightarrow> world \<Rightarrow> world" where
  "await env w = (fold onTabRemoved (removed_tabs env (awaits w)) w)\<lparr>awaits := Suc (awaits w)\<rparr>"

definition attachDebugger :: "chrome_env \<Rightarrow> tab_id \<Rightarrow> world \<Rightarrow> (string + unit) \<times> world" where
  "attachDebugger env tabId w =
     (let w1 = await env (emit GetTargets w)
      in case getTargets env of
           Inl e \<Rightarrow> (Inl e, w1)
         | Inr targets \<Rightarrow>
             (case find (\<lambda>t. tgt_tabId t = Some tabId \<and> tgt_attached t) targets of
                Some existingTarget \<Rightarrow>
                  if tgt_extensionId existingTarget = Some (runtime_id env)
                  then (Inr (), log_line ''Debugger already attached by this extension'' w1)
                  else (Inl ''Debugger is already attached to this tab by another extension or DevTools'',
                        w1)
              | None \<Rightarrow>
                  let w2 = await env (emit (DebuggerAttach tabId) w1)
                  in (case attach_rejects env of
                        Some e \<Rightarrow> (Inl e, w2)
                      | None \<Rightarrow>
                          (Inr (),
                           log_line ''Debugger attached to tab''
                             (w2\<lparr>activeDebuggers := (activeDebuggers w2)(tabId \<mapsto> True)\<rparr>)))))"

definition detachDebugger :: "chrome_env \<Rightarrow> tab_id \<Rightarrow> world \<Rightarrow> world" where
  "detachDebugger env tabId w =
     (if activeDebuggers w tabId = None then w
      else
        let w1 = await env (emit (DebuggerDetach tabId) w);
            w2 = (case detach_rejects env of
                    None \<Rightarrow> log_line ''Debugger detached from tab'' w1
                  | Some e \<Rightarrow> log_line (''Error detaching debugger from tab: '' @ e) w1)
        in w2\<lparr>activeDebuggers := (activeDebuggers w2)(tabId := None)\<rparr>)"

definition sendCommand :: "chrome_env \<Rightarrow> tab_id \<Rightarrow> cdp_command \<Rightarrow> world \<Rightarrow> world" where
  "sendCommand env tabId c w = await env (emit (DebuggerSendCommand tabId c) w)"

text \<open>The loop over the flat attribute list, two entries at a time; \<open>attributes[i + 1]\<close>
  past the end is \<open>undefined\<close> and equals nothing.\<close>

fun isFileInput :: "string list \<Rightarrow> bool" where
  "isFileInput (n # v # rest) = (if n = ''type'' \<and> v = ''file'' then True else isFileInput rest)"
| "isFileInput _ = False"

text \<open>\<open>selector.replace(/'/g, "\\'")\<close>\<close>

fun escape_quotes :: "string \<Rightarrow> string" where
  "escape_quotes [] = []"
| "escape_quotes (c # cs) =
     (if c = CHR 0x27 then CHR 0x5C # CHR 0x27 # escape_quotes cs else c # escape_quotes cs)"

definition quoted :: "string \<Rightarrow> string" where
  "quoted s = CHR 0x22 # s @ [CHR 0x22]"

text \<open>How a piece of the \<open>try\<close> block ends: with a \<open>return\<close> or with a \<open>throw\<close>.\<close>

datatype 'a completion = Returned 'a | Thrown string

text \<open>
  \<open>execute\<close>, first the part headed \<open>Prepare file paths\<close>: the path given directly, else
  the path staged by the native host (\<open>None\<close> when staging yields no path), else no file.
\<close>

definition stage_files :: "chrome_env \<Rightarrow> upload_args \<Rightarrow> world \<Rightarrow> string list option \<times> world" where
  "stage_files env args w =
     (if truthy (fileUrl args) \<or> truthy (base64Data args) then
        let name = (case fileName args of
                      None \<Rightarrow> ''uploaded-file''
                    | Some n \<Rightarrow> if n = [] then ''uploaded-file'' else n);
            w1 = await env
                   (emit (NativeRequest (new_request_id env) (fileUrl args) (base64Data args) name) w);
            tempFilePath = awaited (prepareFileFromRemote (new_request_id env) (stage_events env))
        in (case tempFilePath of
              None \<Rightarrow> (None, w1)
            | Some p \<Rightarrow> if p = [] then (None, w1) else (Some [p], w1))
      else (Some [], w))"

definition prepare_files :: "chrome_env \<Rightarrow> upload_args \<Rightarrow> world \<Rightarrow> string list option \<times> world" where
  "prepare_files env args w =
     (case filePath args of
        None \<Rightarrow> stage_files env args w
      | Some p \<Rightarrow> if p = [] then stage_files env args w else (Some [p], w))"

text \<open>The part of the \<open>try\<close> block after \<open>attachDebugger\<close>: the protocol commands, the
  checks between them, and the detach before the success response.\<close>

definition upload_commands ::
  "chrome_env \<Rightarrow> upload_args \<Rightarrow> tab_id \<Rightarrow> string list \<Rightarrow> world \<Rightarrow> ToolResult completion \<times> world" where
  "upload_commands env args tabId files w =
     (let w1 = sendCommand env tabId DOM_enable w in
      (case dom_enable_rejects env of Some e \<Rightarrow> (Thrown e, w1) | None \<Rightarrow>
      (let w2 = sendCommand env tabId Runtime_enable w1 in
      (case runtime_enable_rejects env of Some e \<Rightarrow> (Thrown e, w2) | None \<Rightarrow>
      (let w3 = sendCommand env tabId DOM_getDocument w2 in
      (case getDocument env of Inl e \<Rightarrow> (Thrown e, w3) | Inr rootNodeId \<Rightarrow>
      (let w4 = sendCommand env tabId (DOM_querySelector rootNodeId (selector args)) w3 in
      (case querySelector env rootNodeId (selector args) of Inl e \<Rightarrow> (Thrown e, w4) | Inr found \<Rightarrow>
      (case found of
        None \<Rightarrow> (Thrown (''Element with selector '' @ quoted (selector args) @ '' not found''), w4)
      | Some nodeId \<Rightarrow>
      (if nodeId = 0
       then (Thrown (''Element with selector '' @ quoted (selector args) @ '' not found''), w4)
       else
      (let w5 = sendCommand env tabId (DOM_describeNode nodeId) w4 in
      (case describeNode env nodeId of Inl e \<Rightarrow> (Thrown e, w5) | Inr node \<Rightarrow>
      (if nodeName node \<noteq> ''INPUT''
       then (Thrown (''Element with selector '' @ quoted (selector args) @
                     '' is not an input element''), w5)
       else if \<not> isFileInput (case attributes node of None \<Rightarrow> [] | Some as \<Rightarrow> as)
       then (Thrown (''Element with selector '' @ quoted (selector args) @
                     '' is not a file input (type='' @ quoted ''file'' @ '')''), w5)
       else
      (let w6 = sendCommand env tabId (DOM_setFileInputFiles nodeId files) w5 in
      (case setFileInputFiles_rejects env nodeId files of Some e \<Rightarrow> (Thrown e, w6) | None \<Rightarrow>
      (let w7 = sendCommand env tabId (Runtime_evaluate (escape_quotes (selector args))) w6 in
      (case evaluate_rejects env (escape_quotes (selector args)) of
        Some e \<Rightarrow> (Thrown e, w7)
      | None \<Rightarrow>
      (let w8 = detachDebugger env tabId w7 in
       (Returned (createSuccessResponse
                    \<lparr>ud_success = True, ud_message = ''File(s) uploaded successfully'',
                     ud_files = files, ud_selector = selector args,
                     ud_fileCount = length files\<rparr>),
        w8)))))))))))))))))))"

text \<open>\<open>tabs[0]?.id\<close>, absent when there is no tab, no id, or the id is 0.\<close>

definition first_tab_id :: "tab_id option list \<Rightarrow> tab_id option" where
  "first_tab_id tabs =
     (case tabs of
        [] \<Rightarrow> None
      | t # _ \<Rightarrow> (case t of None \<Rightarrow> None | Some i \<Rightarrow> if i = 0 then None else Some i))"

text \<open>The \<open>try\<close> block: how it ends, the value of \<open>tabId\<close> at that moment, the world.\<close>

definition execute_try ::
  "chrome_env \<Rightarrow> upload_args \<Rightarrow> world \<Rightarrow> ToolResult completion \<times> tab_id option \<times> world" where
  "execute_try env args w =
     (let w1 = await env (emit TabsQuery w) in
      (case tabs_query env of Inl e \<Rightarrow> (Thrown e, None, w1) | Inr tabs \<Rightarrow>
      (case first_tab_id tabs of
        None \<Rightarrow> (Returned (createErrorResponse ''No active tab found''), None, w1)
      | Some tabId \<Rightarrow>
      (case prepare_files env args w1 of
        (None, w2) \<Rightarrow>
          (Returned (createErrorResponse ''Failed to prepare file for upload''), Some tabId, w2)
      | (Some files, w2) \<Rightarrow>
      (case attachDebugger env tabId w2 of
        (Inl e, w3) \<Rightarrow> (Thrown e, Some tabId, w3)
      | (Inr u, w3) \<Rightarrow>
      (case upload_commands env args tabId files w3 of (c, w4) \<Rightarrow> (c, Some tabId, w4)))))))"

text \<open>\<open>execute\<close>: the two checks of the arguments, the \<open>try\<close> block, the \<open>catch\<close>.\<close>

definition execute :: "chrome_env \<Rightarrow> upload_args \<Rightarrow> world \<Rightarrow> ToolResult \<times> world" where
  "execute env args w =
     (if selector args = [] then (createErrorResponse ''Selector is required for file upload'', w)
      else if \<not> truthy (filePath args) \<and> \<not> truthy (fileUrl args) \<and> \<not> truthy (base64Data args)
      then (createErrorResponse ''One of filePath, fileUrl, or base64Data must be provided'', w)
      else
        (case execute_try env args w of
           (Returned r, _, w') \<Rightarrow> (r, w')
         | (Thrown e, tabIdOpt, w') \<Rightarrow>
             let w1 = log_line (''Error in file upload operation: '' @ e) w';
                 w2 = (case tabIdOpt of
                         None \<Rightarrow> w1
                       | Some tabId \<Rightarrow>
                           if activeDebuggers w1 tabId \<noteq> None then detachDebugger env tabId w1
                           else w1)
             in (createErrorResponse (''Error uploading file: '' @ e), w2)))"

text \<open>
  A history of the tool: calls of \<open>execute\<close>, each running to its return before the next
  thing happens, and tab removals between them. The tool starts with an empty map.
\<close>

datatype action = UploadFile chrome_env upload_args | TabRemoved tab_id

fun run_actions :: "action list \<Rightarrow> world \<Rightarrow> world" where
  "run_actions [] w = w"
| "run_actions (UploadFile env args # rest) w = run_actions rest (snd (execute env args w))"
| "run_actions (TabRemoved tabId # rest) w = run_actions rest (onTabRemoved tabId w)"

definition initial_world :: world where
  "initial_world = \<lparr>activeDebuggers = Map.empty, calls = [], console = [], awaits = 0\<rparr>"

text \<open>The calls that act on a tab through the debugger.\<close>

fun debugger_command :: "chrome_call \<Rightarrow> bool" where
  "debugger_command (DebuggerAttach _) = True"
| "debugger_command (DebuggerSendCommand _ _) = True"
| "debugger_command (DebuggerDetach _) = True"
| "debugger_command _ = False"

section \<open>The specification's words\<close>

text \<open>
  The adjustment policy. Between two successive attempts, with budget \<open>m\<close>: the earlier
  one succeeded over the budget; the quality is multiplied by 0.85 (not below 0.2) while
  it is above 0.3, with the scale kept; else the scale is multiplied by 0.85 (not below
  0.3), with the quality kept.
\<close>

definition policy_step :: "real \<Rightarrow> attempt \<Rightarrow> attempt \<Rightarrow> bool" where
  "policy_step m a b \<longleftrightarrow>
     (\<exists>r. att_result a = Inr r \<and> real (getBase64Size (dataUrl r)) > m) \<and>
     (if att_quality a > 0.3
      then att_quality b = max 0.2 (att_quality a * 0.85) \<and> att_scale b = att_scale a
      else att_scale b = max 0.3 (att_scale a * 0.85) \<and> att_quality b = att_quality a)"

text \<open>
  Stitching in the words of the specification: the source height of a part clipped to
  the canvas, and the one draw a part contributes, none when it does not decode or when
  its clipped height is not positive.
\<close>

definition clipped_height :: "bitmap \<Rightarrow> real \<Rightarrow> real \<Rightarrow> real" where
  "clipped_height img y totalHeight = min (real (bmp_height img)) (totalHeight - y)"

definition part_draw :: "host \<Rightarrow> real \<Rightarrow> image_part \<Rightarrow> draw_op option" where
  "part_draw h totalHeight p =
     (case decode h (part_dataUrl p) of
        Inl e \<Rightarrow> None
      | Inr img \<Rightarrow>
          if clipped_height img (part_y p) totalHeight \<le> 0 then None
          else Some (DrawImage img 0 0 (real (bmp_width img))
                       (clipped_height img (part_y p) totalHeight)
                       0 (part_y p) (real (bmp_width img))
                       (clipped_height img (part_y p) totalHeight)))"

text \<open>The error of \<open>cropAndResizeImage\<close> for an empty clamped rectangle.\<close>

definition InvalidCropSize :: string where
  "InvalidCropSize =
     ''Invalid calculated crop size (<=0). Element may not be visible or fully captured.''"

section \<open>Concrete inputs\<close>

definition fitting_host :: host where
  "fitting_host =
     \<lparr>decode = (\<lambda>_. Inr \<lparr>bmp_width = 100, bmp_height = 100\<rparr>),
      context2d = True,
      encode = (\<lambda>_ _ _ _ q. if q \<le> 0.7 then Inr ''data:image/jpeg;base64,/9j/''
                              else Inr ''data:image/jpeg;base64,/9j/4AAQ'')\<rparr>"

definition over_budget_host :: host where
  "over_budget_host =
     \<lparr>decode = (\<lambda>_. Inr \<lparr>bmp_width = 100, bmp_height = 100\<rparr>),
      context2d = True,
      encode = (\<lambda>_ _ _ _ _. Inr ''data:image/jpeg;base64,/9j/4AAQ'')\<rparr>"

definition budget_options :: "real \<Rightarrow> real \<Rightarrow> compress_options" where
  "budget_options q m = \<lparr>scale = Some 1, quality = Some q, format = Some Jpeg, maxSizeBytes = Some m\<rparr>"

definition page_host :: host where
  "page_host =
     \<lparr>decode = (\<lambda>u. if u = ''data:,broken'' then Inl ''The source image could not be decoded''
                     else Inr \<lparr>bmp_width = 100, bmp_height = 100\<rparr>),
      context2d = True,
      encode = (\<lambda>_ _ _ _ _. Inr ''data:image/jpeg;base64,/9j/4AAQ'')\<rparr>"

definition page_parts :: "image_part list" where
  "page_parts =
     [\<lparr>part_dataUrl = ''data:,a'', part_y = 0\<rparr>,
      \<lparr>part_dataUrl = ''data:,broken'', part_y = 100\<rparr>,
      \<lparr>part_dataUrl = ''data:,b'', part_y = 150\<rparr>,
      \<lparr>part_dataUrl = ''data:,c'', part_y = 180\<rparr>]"

definition square_host :: host where
  "square_host =
     \<lparr>decode = (\<lambda>_. Inr \<lparr>bmp_width = 100, bmp_height = 100\<rparr>),
      context2d = True,
      encode = (\<lambda>_ _ _ _ _. Inr ''data:image/jpeg;base64,/9j/4AAQ'')\<rparr>"

definition form_env :: chrome_env where
  "form_env =
     \<lparr>runtime_id = ''this-extension'',
      tabs_query = Inr [Some 7],
      new_request_id = ''file-upload-1700000000000-k3x9q2m1z'',
      stage_events = [],
      getTargets = Inr [\<lparr>tgt_tabId = Some 7, tgt_attached = False, tgt_extensionId = None\<rparr>],
      attach_rejects = None,
      dom_enable_rejects = None,
      runtime_enable_rejects = None,
      getDocument = Inr 1,
      querySelector = (\<lambda>_ _. Inr (Some 42)),
      describeNode = (\<lambda>_. Inr \<lparr>nodeName = ''INPUT'',
                                  attributes = Some [''id'', ''f'', ''type'', ''file'']\<rparr>),
      setFileInputFiles_rejects = (\<lambda>_ _. None),
      evaluate_rejects = (\<lambda>_. None),
      detach_rejects = None,
      removed_tabs = (\<lambda>_. [])\<rparr>"

definition local_args :: upload_args where
  "local_args =
     \<lparr>selector = ''#f'', filePath = Some ''/tmp/a.png'', fileUrl = None, base64Data = None,
      fileName = None, multiple = None\<rparr>"

definition both_args :: upload_args where
  "both_args = local_args\<lparr>fileUrl := Some ''http://x/y.bin''\<rparr>"

definition closing_env :: chrome_env where
  "closing_env = form_env\<lparr>removed_tabs := (\<lambda>k. if k = 3 then [7] else [])\<rparr>"

definition inspected_env :: chrome_env where
  "inspected_env =
     form_env\<lparr>getTargets :=
       Inr [\<lparr>tgt_tabId = Some 7, tgt_attached = True, tgt_extensionId = None\<rparr>]\<rparr>"

definition text_input_env :: chrome_env where
  "text_input_env =
     form_env\<lparr>describeNode :=
       (\<lambda>_. Inr \<lparr>nodeName = ''INPUT'', attributes = Some [''id'', ''notfile'', ''type'', ''text'']\<rparr>)\<rparr>"

definition own_env :: chrome_env where
  "own_env =
     form_env\<lparr>getTargets :=
       Inr [\<lparr>tgt_tabId = Some 7, tgt_attached = True,
             tgt_extensionId = Some ''this-extension''\<rparr>]\<rparr>"

section \<open>Properties of the adaptive compressor\<close>

text \<open>What the loop does from any of its states: each attempt follows from the one
  before by the policy, the value returned is that of the last attempt, and the loop
  stops within the budget or when the attempts are used up.\<close>

lemma compress_loop_trace:
  "compress_loop h url fmt m s q r n = (res, tr) \<Longrightarrow>
   successively (policy_step m) (\<lparr>att_scale = s, att_quality = q, att_result = Inr r\<rparr> # tr) \<and>
   res = att_result (last (\<lparr>att_scale = s, att_quality = q, att_result = Inr r\<rparr> # tr)) \<and>
   (\<forall>a \<in> set tr. att_result a = compressImageOnce h url (att_scale a) (att_quality a) fmt) \<and>
   length tr \<le> MAX_ATTEMPTS - n \<and>
   (\<forall>r'. res = Inr r' \<longrightarrow>
      real (getBase64Size (dataUrl r')) \<le> m \<or> length tr = MAX_ATTEMPTS - n \<or> MAX_ATTEMPTS \<le> n)"
proof (induction h url fmt m s q r n arbitrary: res tr rule: compress_loop.induct)
  case (1 h url fmt maxSize currentScale currentQuality result attempts)
  let ?a0 = "\<lparr>att_scale = currentScale, att_quality = currentQuality, att_result = Inr result\<rparr>"
  note unfold = compress_loop.simps[of h url fmt maxSize currentScale currentQuality result attempts]
  show ?case
  proof (cases "real (getBase64Size (dataUrl result)) > maxSize \<and> attempts < MAX_ATTEMPTS")
    case False
    with "1.prems" show ?thesis
      by (auto simp: unfold)
  next
    case True
    define q' where "q' = (if currentQuality > QUALITY_THRESHOLD
               then max MIN_QUALITY (currentQuality * REDUCTION_FACTOR)
               else currentQuality)"
    define s' where "s' = (if currentQuality > QUALITY_THRESHOLD
               then currentScale
               else max MIN_SCALE (currentScale * REDUCTION_FACTOR))"
    define a where
      "a = \<lparr>att_scale = s', att_quality = q', att_result = compressImageOnce h url s' q' fmt\<rparr>"
    have step: "policy_step maxSize ?a0 a"
      using True
      by (simp add: policy_step_def a_def q'_def s'_def QUALITY_THRESHOLD_def MIN_QUALITY_def
          MIN_SCALE_def REDUCTION_FACTOR_def)
    show ?thesis
    proof (cases "compressImageOnce h url s' q' fmt")
      case (Inl e)
      with True "1.prems" have "res = Inl e" "tr = [a]"
        by (auto simp: unfold Let_def a_def q'_def s'_def)
      with step Inl True show ?thesis
        by (auto simp: a_def)
    next
      case (Inr result')
      obtain res' as where
        rec: "compress_loop h url fmt maxSize s' q' result' (attempts + 1) = (res', as)"
        by (cases "compress_loop h url fmt maxSize s' q' result' (attempts + 1)")
      with Inr True "1.prems" have eq: "res = res'" "tr = a # as"
        by (auto simp: unfold Let_def a_def q'_def s'_def)
      have a_eq: "a = \<lparr>att_scale = s', att_quality = q', att_result = Inr result'\<rparr>"
        by (simp add: a_def Inr)
      have IH: "successively (policy_step maxSize) (a # as) \<and>
          res' = att_result (last (a # as)) \<and>
          (\<forall>a \<in> set as. att_result a = compressImageOnce h url (att_scale a) (att_quality a) fmt) \<and>
          length as \<le> MAX_ATTEMPTS - (attempts + 1) \<and>
          (\<forall>r'. res' = Inr r' \<longrightarrow> real (getBase64Size (dataUrl r')) \<le> maxSize \<or>
             length as = MAX_ATTEMPTS - (attempts + 1) \<or> MAX_ATTEMPTS \<le> attempts + 1)"
        unfolding a_eq by (rule "1.IH"[OF True refl q'_def s'_def refl refl Inr rec])
      show ?thesis
        using IH step True eq by (auto simp: a_def)
    qed
  qed
qed

text \<open>The same for \<open>compressImage\<close> with a budget: the first pass heads the attempts.\<close>

lemma compressImage_trace:
  assumes "maxSizeBytes options = Some m" and "m \<noteq> 0"
    and "compressImage h url options = (res, tr)"
  shows "\<exists>rest. tr = \<lparr>att_scale = (case scale options of None \<Rightarrow> 1 | Some s \<Rightarrow> s),
                        att_quality = (case quality options of None \<Rightarrow> 0.8 | Some q \<Rightarrow> q),
                        att_result = compressImageOnce h url
                           (case scale options of None \<Rightarrow> 1 | Some s \<Rightarrow> s)
                           (case quality options of None \<Rightarrow> 0.8 | Some q \<Rightarrow> q)
                           (case format options of None \<Rightarrow> Jpeg | Some f \<Rightarrow> f)\<rparr> # rest"
    and "successively (policy_step m) tr"
    and "res = att_result (last tr)"
    and "\<forall>a \<in> set tr. att_result a =
           compressImageOnce h url (att_scale a) (att_quality a)
             (case format options of None \<Rightarrow> Jpeg | Some f \<Rightarrow> f)"
    and "length tr \<le> Suc MAX_ATTEMPTS"
    and "\<forall>r. res = Inr r \<longrightarrow> real (getBase64Size (dataUrl r)) \<le> m \<or> length tr = Suc MAX_ATTEMPTS"
proof -
  define sc where "sc = (case scale options of None \<Rightarrow> 1 | Some s \<Rightarrow> s)"
  define q where "q = (case quality options of None \<Rightarrow> 0.8 | Some q \<Rightarrow> q)"
  define fmt where "fmt = (case format options of None \<Rightarrow> Jpeg | Some f \<Rightarrow> f)"
  define a where "a = \<lparr>att_scale = sc, att_quality = q, att_result = compressImageOnce h url sc q fmt\<rparr>"
  have all: "tr = a # tl tr \<and> successively (policy_step m) tr \<and> res = att_result (last tr) \<and>
    (\<forall>a \<in> set tr. att_result a = compressImageOnce h url (att_scale a) (att_quality a) fmt) \<and>
    length tr \<le> Suc MAX_ATTEMPTS \<and>
    (\<forall>r. res = Inr r \<longrightarrow> real (getBase64Size (dataUrl r)) \<le> m \<or> length tr = Suc MAX_ATTEMPTS)"
  proof (cases "compressImageOnce h url sc q fmt")
    case (Inl e)
    with assms have "res = Inl e" "tr = [a]"
      by (auto simp: compressImage_def Let_def a_def sc_def q_def fmt_def)
    with Inl show ?thesis by (simp add: a_def MAX_ATTEMPTS_def)
  next
    case (Inr result)
    obtain res' as where rec: "compress_loop h url fmt m sc q result 0 = (res', as)"
      by (cases "compress_loop h url fmt m sc q result 0")
    with Inr assms have eq: "res = res'" "tr = a # as"
      by (auto simp: compressImage_def Let_def a_def sc_def q_def fmt_def)
    have a_eq: "a = \<lparr>att_scale = sc, att_quality = q, att_result = Inr result\<rparr>"
      by (simp add: a_def Inr)
    from compress_loop_trace[OF rec, folded a_eq] eq show ?thesis
      by (auto simp: a_def MAX_ATTEMPTS_def)
  qed
  from all show "\<exists>rest. tr = \<lparr>att_scale = (case scale options of None \<Rightarrow> 1 | Some s \<Rightarrow> s),
                        att_quality = (case quality options of None \<Rightarrow> 0.8 | Some q \<Rightarrow> q),
                        att_result = compressImageOnce h url
                           (case scale options of None \<Rightarrow> 1 | Some s \<Rightarrow> s)
                           (case quality options of None \<Rightarrow> 0.8 | Some q \<Rightarrow> q)
                           (case format options of None \<Rightarrow> Jpeg | Some f \<Rightarrow> f)\<rparr> # rest"
    unfolding a_def sc_def q_def fmt_def by blast
  from all show "successively (policy_step m) tr" by blast
  from all show "res = att_result (last tr)" by blast
  from all show "\<forall>a \<in> set tr. att_result a =
           compressImageOnce h url (att_scale a) (att_quality a)
             (case format options of None \<Rightarrow> Jpeg | Some f \<Rightarrow> f)"
    unfolding fmt_def by blast
  from all show "length tr \<le> Suc MAX_ATTEMPTS" by blast
  from all show "\<forall>r. res = Inr r \<longrightarrow> real (getBase64Size (dataUrl r)) \<le> m \<or> length tr = Suc MAX_ATTEMPTS"
    by blast
qed

text \<open>The policy for a budget that is not zero: the first attempt, the step between
  attempts, and what is returned.\<close>

lemma compressImage_budget_steps:
  assumes "maxSizeBytes options = Some m" and "m \<noteq> 0"
    and "compressImage h url options = (res, tr)"
  shows "tr \<noteq> [] \<and>
    att_scale (hd tr) = (case scale options of None \<Rightarrow> 1 | Some s \<Rightarrow> s) \<and>
    att_quality (hd tr) = (case quality options of None \<Rightarrow> 0.8 | Some q \<Rightarrow> q) \<and>
    (\<forall>a \<in> set tr. att_result a =
        compressImageOnce h url (att_scale a) (att_quality a)
          (case format options of None \<Rightarrow> Jpeg | Some f \<Rightarrow> f)) \<and>
    successively
      (\<lambda>a b. (\<exists>r. att_result a = Inr r \<and> real (getBase64Size (dataUrl r)) > m) \<and>
         (if att_quality a > 0.3
          then att_quality b = max 0.2 (att_quality a * 0.85) \<and> att_scale b = att_scale a
          else att_scale b = max 0.3 (att_scale a * 0.85) \<and> att_quality b = att_quality a)) tr \<and>
    res = att_result (last tr) \<and>
    (\<forall>r. res = Inr r \<longrightarrow> real (getBase64Size (dataUrl r)) \<le> m \<or> length tr = Suc MAX_ATTEMPTS)"
proof -
  note t = compressImage_trace[OF assms]
  from t(1) have "tr \<noteq> []"
    and "att_scale (hd tr) = (case scale options of None \<Rightarrow> 1 | Some s \<Rightarrow> s)"
    and "att_quality (hd tr) = (case quality options of None \<Rightarrow> 0.8 | Some q \<Rightarrow> q)"
    by auto
  moreover have "successively
      (\<lambda>a b. (\<exists>r. att_result a = Inr r \<and> real (getBase64Size (dataUrl r)) > m) \<and>
         (if att_quality a > 0.3
          then att_quality b = max 0.2 (att_quality a * 0.85) \<and> att_scale b = att_scale a
          else att_scale b = max 0.3 (att_scale a * 0.85) \<and> att_quality b = att_quality a)) tr"
    using t(2) unfolding policy_step_def[abs_def] .
  ultimately show ?thesis using t(3,4,6) by blast
qed

text \<open>A budget of zero is no budget (\<open>!maxSizeBytes\<close>): one pass, returned as it is.\<close>

lemma compressImage_zero_budget:
  assumes "maxSizeBytes options = Some 0"
    and "compressImage h url options = (res, tr)"
  shows "res = compressImageOnce h url
                 (case scale options of None \<Rightarrow> 1 | Some s \<Rightarrow> s)
                 (case quality options of None \<Rightarrow> 0.8 | Some q \<Rightarrow> q)
                 (case format options of None \<Rightarrow> Jpeg | Some f \<Rightarrow> f) \<and>
         tr = [\<lparr>att_scale = (case scale options of None \<Rightarrow> 1 | Some s \<Rightarrow> s),
                att_quality = (case quality options of None \<Rightarrow> 0.8 | Some q \<Rightarrow> q),
                att_result = res\<rparr>]"
  using assms by (auto simp: compressImage_def Let_def)

text \<open>
  Claim C1, as the code has it. For a call of \<open>compressImage\<close> with \<open>maxSizeBytes\<close> set to
  a value that is not zero: the first attempt uses the given (or default) scale and
  quality; every attempt is one call of \<open>compressImageOnce\<close> at its scale and quality;
  every attempt but the last succeeded with a measured size over the budget, and the next
  attempt changes one parameter: the quality, multiplied by 0.85 and not below 0.2, with
  the scale unchanged, when the quality was above 0.3; otherwise the scale, multiplied by
  0.85 and not below 0.3, with the quality unchanged. The call returns what the last
  attempt returned; a result is returned as soon as its size is within the budget, and an
  over-budget result is returned, not an error, only after the first pass and
  \<open>MAX_ATTEMPTS\<close> further attempts. With \<open>maxSizeBytes\<close> set to zero the call is the single
  pass of a call without a budget: one attempt, returned whatever its size.
\<close>

theorem compressImage_budget_policy:
  assumes "maxSizeBytes options = Some m"
    and "compressImage h url options = (res, tr)"
  shows "(m \<noteq> 0 \<longrightarrow>
      tr \<noteq> [] \<and>
      att_scale (hd tr) = (case scale options of None \<Rightarrow> 1 | Some s \<Rightarrow> s) \<and>
      att_quality (hd tr) = (case quality options of None \<Rightarrow> 0.8 | Some q \<Rightarrow> q) \<and>
      (\<forall>a \<in> set tr. att_result a =
          compressImageOnce h url (att_scale a) (att_quality a)
            (case format options of None \<Rightarrow> Jpeg | Some f \<Rightarrow> f)) \<and>
      successively
        (\<lambda>a b. (\<exists>r. att_result a = Inr r \<and> real (getBase64Size (dataUrl r)) > m) \<and>
           (if att_quality a > 0.3
            then att_quality b = max 0.2 (att_quality a * 0.85) \<and> att_scale b = att_scale a
            else att_scale b = max 0.3 (att_scale a * 0.85) \<and> att_quality b = att_quality a)) tr \<and>
      res = att_result (last tr) \<and>
      (\<forall>r. res = Inr r \<longrightarrow>
         real (getBase64Size (dataUrl r)) \<le> m \<or> length tr = Suc MAX_ATTEMPTS)) \<and>
    (m = 0 \<longrightarrow>
      res = compressImageOnce h url
              (case scale options of None \<Rightarrow> 1 | Some s \<Rightarrow> s)
              (case quality options of None \<Rightarrow> 0.8 | Some q \<Rightarrow> q)
              (case format options of None \<Rightarrow> Jpeg | Some f \<Rightarrow> f) \<and>
      tr = [\<lparr>att_scale = (case scale options of None \<Rightarrow> 1 | Some s \<Rightarrow> s),
             att_quality = (case quality options of None \<Rightarrow> 0.8 | Some q \<Rightarrow> q),
             att_result = res\<rparr>])"
proof (cases "m = 0")
  case True
  note z = compressImage_zero_budget[OF assms(1)[unfolded True] assms(2)]
  from True z show ?thesis by blast
next
  case False
  note p = compressImage_budget_steps[OF assms(1) False assms(2)]
  from False p show ?thesis by blast
qed

text \<open>
  Claim C1 as stated fails for \<open>maxSizeBytes = 0\<close>: with a codec whose output always
  measures 8, the call makes one attempt and returns its result, which is over the budget
  of 0; no parameter is adjusted and the attempts are not used up.
\<close>

theorem compressImage_zero_budget_counterexample:
  "maxSizeBytes (budget_options 0.9 0) = Some 0 \<and>
   compressImage over_budget_host ''data:image/png;base64,iVBORw0K'' (budget_options 0.9 0) =
     (Inr \<lparr>dataUrl = ''data:image/jpeg;base64,/9j/4AAQ'', mimeType = Jpeg\<rparr>,
      [\<lparr>att_scale = 1, att_quality = 0.9,
        att_result = Inr \<lparr>dataUrl = ''data:image/jpeg;base64,/9j/4AAQ'', mimeType = Jpeg\<rparr>\<rparr>]) \<and>
   real (getBase64Size ''data:image/jpeg;base64,/9j/4AAQ'') > 0 \<and>
   \<not> (real (getBase64Size ''data:image/jpeg;base64,/9j/4AAQ'') \<le> 0 \<or>
      length [\<lparr>att_scale = 1, att_quality = 0.9,
               att_result = Inr \<lparr>dataUrl = ''data:image/jpeg;base64,/9j/4AAQ'',
                                  mimeType = Jpeg\<rparr>\<rparr>] = Suc MAX_ATTEMPTS)"
  by (simp add: compressImage_def budget_options_def compressImageOnce_def over_budget_host_def
      getBase64Size_def MAX_ATTEMPTS_def Let_def)

lemma size_small: "getBase64Size ''data:image/jpeg;base64,/9j/'' = 4"
  by (simp add: getBase64Size_def)

lemma size_big: "getBase64Size ''data:image/jpeg;base64,/9j/4AAQ'' = 8"
  by (simp add: getBase64Size_def)

lemma fitting_run:
  "compressImage fitting_host ''data:image/png;base64,iVBORw0K'' (budget_options 0.8 5) =
     (Inr \<lparr>dataUrl = ''data:image/jpeg;base64,/9j/'', mimeType = Jpeg\<rparr>,
      [\<lparr>att_scale = 1, att_quality = 0.8,
        att_result = Inr \<lparr>dataUrl = ''data:image/jpeg;base64,/9j/4AAQ'', mimeType = Jpeg\<rparr>\<rparr>,
       \<lparr>att_scale = 1, att_quality = 0.68,
        att_result = Inr \<lparr>dataUrl = ''data:image/jpeg;base64,/9j/'', mimeType = Jpeg\<rparr>\<rparr>])"
  by (simp add: compressImage_def budget_options_def compressImageOnce_def fitting_host_def
      compress_loop.simps size_small size_big Let_def
      MAX_ATTEMPTS_def MIN_QUALITY_def MIN_SCALE_def QUALITY_THRESHOLD_def REDUCTION_FACTOR_def)

theorem compressImage_budget_policy_witness:
  "maxSizeBytes (budget_options 0.8 5) = Some 5 \<and> (5::real) \<noteq> 0 \<and>
   fst (compressImage fitting_host ''data:image/png;base64,iVBORw0K'' (budget_options 0.8 5)) =
     Inr \<lparr>dataUrl = ''data:image/jpeg;base64,/9j/'', mimeType = Jpeg\<rparr> \<and>
   map (\<lambda>a. (att_scale a, att_quality a))
     (snd (compressImage fitting_host ''data:image/png;base64,iVBORw0K'' (budget_options 0.8 5))) =
     [(1, 0.8), (1, 0.68)] \<and>
   fst (compressImage fitting_host ''data:image/png;base64,iVBORw0K'' (budget_options 0.8 5)) =
     att_result (last (snd (compressImage fitting_host ''data:image/png;base64,iVBORw0K''
        (budget_options 0.8 5)))) \<and>
   maxSizeBytes (budget_options 0.8 0) = Some 0 \<and>
   length (snd (compressImage fitting_host ''data:image/png;base64,iVBORw0K''
     (budget_options 0.8 0))) = 1"
proof -
  have m: "maxSizeBytes (budget_options 0.8 5) = Some 5" and nz: "(5::real) \<noteq> 0"
    and z: "maxSizeBytes (budget_options 0.8 0) = Some 0"
    by (simp_all add: budget_options_def)
  note th = compressImage_budget_policy[OF m fitting_run]
  note tz = compressImage_budget_policy[OF z surjective_pairing
      [of "compressImage fitting_host ''data:image/png;base64,iVBORw0K'' (budget_options 0.8 0)"]]
  from tz have one: "length (snd (compressImage fitting_host ''data:image/png;base64,iVBORw0K''
     (budget_options 0.8 0))) = 1"
    by simp
  show ?thesis unfolding fitting_run using th m z one by simp
qed

lemma successively_nth:
  "successively P xs \<Longrightarrow> Suc i < length xs \<Longrightarrow> P (xs ! i) (xs ! Suc i)"
proof (induction P xs arbitrary: i rule: successively.induct)
  case (3 P x y xs)
  then show ?case by (cases i) auto
qed auto

lemma successively_drop: "successively P xs \<Longrightarrow> successively P (drop n xs)"
  using successively_append_iff[of P "take n xs" "drop n xs"] by simp

lemma policy_floor:
  "successively (policy_step m) (a # tr) \<Longrightarrow> b \<in> set (a # tr) \<Longrightarrow>
   min (att_quality a) 0.2 \<le> att_quality b \<and> min (att_scale a) 0.3 \<le> att_scale b"
proof (induction tr arbitrary: a)
  case Nil
  then show ?case by simp
next
  case (Cons c tr)
  from Cons.prems(1) have step: "policy_step m a c" and rest: "successively (policy_step m) (c # tr)"
    by simp_all
  from step have c: "min (att_quality a) 0.2 \<le> att_quality c \<and> min (att_scale a) 0.3 \<le> att_scale c"
    by (auto simp: policy_step_def split: if_splits)
  show ?case
  proof (cases "b = a")
    case True
    then show ?thesis by simp
  next
    case False
    with Cons.prems(2) have "b \<in> set (c # tr)" by simp
    from Cons.IH[OF rest this] c show ?thesis by linarith
  qed
qed

lemma policy_quality_settled:
  "successively (policy_step m) (a # tr) \<Longrightarrow> att_quality a \<le> 0.3 \<Longrightarrow> b \<in> set tr \<Longrightarrow>
   att_quality b = att_quality a"
proof (induction tr arbitrary: a)
  case Nil
  then show ?case by simp
next
  case (Cons c tr)
  from Cons.prems(1) have step: "policy_step m a c" and rest: "successively (policy_step m) (c # tr)"
    by simp_all
  from step Cons.prems(2) have c: "att_quality c = att_quality a"
    by (auto simp: policy_step_def split: if_splits)
  show ?case
  proof (cases "b = c")
    case True
    with c show ?thesis by simp
  next
    case False
    with Cons.prems(3) have "b \<in> set tr" by simp
    from Cons.IH[OF rest _ this] c Cons.prems(2) show ?thesis by simp
  qed
qed

text \<open>
  Claim C6, as the code has it. For a call of \<open>compressImage\<close> with \<open>maxSizeBytes\<close> set:
  there are at most 11 calls of \<open>compressImageOnce\<close>, the first pass and at most
  \<open>MAX_ATTEMPTS\<close> in the loop; no attempt has a quality below the smaller of the first
  quality and 0.2, nor a scale below the smaller of the first scale and 0.3; a quality
  that the loop changes becomes at least 0.2, which happens only after an attempt with
  quality above 0.3 and
  leaves the scale as it is; a scale that the loop changes becomes at least 0.3, which
  happens only after an attempt with quality at most 0.3; and once an attempt has a
  quality at most 0.3, every later attempt has that same quality, so every change of the
  quality comes before every change of the scale.
\<close>

theorem compressImage_attempt_bounds:
  assumes "maxSizeBytes options = Some m" and "m \<noteq> 0"
    and "compressImage h url options = (res, tr)"
  shows "length tr \<le> 11 \<and> length (tl tr) \<le> MAX_ATTEMPTS \<and>
    (\<forall>a \<in> set tr. min (att_quality (hd tr)) 0.2 \<le> att_quality a \<and>
                   min (att_scale (hd tr)) 0.3 \<le> att_scale a) \<and>
    (\<forall>i. Suc i < length tr \<longrightarrow>
       (att_quality (tr ! Suc i) \<noteq> att_quality (tr ! i) \<longrightarrow>
          0.2 \<le> att_quality (tr ! Suc i) \<and> 0.3 < att_quality (tr ! i) \<and>
          att_scale (tr ! Suc i) = att_scale (tr ! i)) \<and>
       (att_scale (tr ! Suc i) \<noteq> att_scale (tr ! i) \<longrightarrow>
          0.3 \<le> att_scale (tr ! Suc i) \<and> att_quality (tr ! i) \<le> 0.3)) \<and>
    (\<forall>i j. i \<le> j \<and> j < length tr \<and> att_quality (tr ! i) \<le> 0.3 \<longrightarrow>
       att_quality (tr ! j) = att_quality (tr ! i))"
proof -
  note t = compressImage_trace[OF assms]
  from t(1) obtain a rest where tr: "tr = a # rest" by blast
  have len: "length tr \<le> 11" "length (tl tr) \<le> MAX_ATTEMPTS"
    using t(5) by (simp_all add: MAX_ATTEMPTS_def)
  have floors: "\<forall>b \<in> set tr. min (att_quality (hd tr)) 0.2 \<le> att_quality b \<and>
                   min (att_scale (hd tr)) 0.3 \<le> att_scale b"
    using policy_floor[of m a rest] t(2) unfolding tr by simp
  have steps: "\<forall>i. Suc i < length tr \<longrightarrow>
       (att_quality (tr ! Suc i) \<noteq> att_quality (tr ! i) \<longrightarrow>
          0.2 \<le> att_quality (tr ! Suc i) \<and> 0.3 < att_quality (tr ! i) \<and>
          att_scale (tr ! Suc i) = att_scale (tr ! i)) \<and>
       (att_scale (tr ! Suc i) \<noteq> att_scale (tr ! i) \<longrightarrow>
          0.3 \<le> att_scale (tr ! Suc i) \<and> att_quality (tr ! i) \<le> 0.3)"
  proof (intro allI impI)
    fix i assume "Suc i < length tr"
    from successively_nth[OF t(2) this]
    show "(att_quality (tr ! Suc i) \<noteq> att_quality (tr ! i) \<longrightarrow>
          0.2 \<le> att_quality (tr ! Suc i) \<and> 0.3 < att_quality (tr ! i) \<and>
          att_scale (tr ! Suc i) = att_scale (tr ! i)) \<and>
       (att_scale (tr ! Suc i) \<noteq> att_scale (tr ! i) \<longrightarrow>
          0.3 \<le> att_scale (tr ! Suc i) \<and> att_quality (tr ! i) \<le> 0.3)"
      by (auto simp: policy_step_def split: if_splits)
  qed
  have settled: "\<forall>i j. i \<le> j \<and> j < length tr \<and> att_quality (tr ! i) \<le> 0.3 \<longrightarrow>
       att_quality (tr ! j) = att_quality (tr ! i)"
  proof (intro allI impI)
    fix i j assume ij: "i \<le> j \<and> j < length tr \<and> att_quality (tr ! i) \<le> 0.3"
    show "att_quality (tr ! j) = att_quality (tr ! i)"
    proof (cases "i = j")
      case True
      then show ?thesis by simp
    next
      case False
      with ij have lt: "i < j" "j < length tr" "i < length tr" by simp_all
      have d: "drop i tr = tr ! i # drop (Suc i) tr"
        using lt(3) by (simp add: Cons_nth_drop_Suc)
      have s: "successively (policy_step m) (tr ! i # drop (Suc i) tr)"
        using successively_drop[OF t(2), of i] d by simp
      have "drop (Suc i) tr ! (j - Suc i) = tr ! j" "j - Suc i < length (drop (Suc i) tr)"
        using lt by simp_all
      then have "tr ! j \<in> set (drop (Suc i) tr)"
        using nth_mem by metis
      from policy_quality_settled[OF s _ this] ij show ?thesis by simp
    qed
  qed
  from len floors steps settled show ?thesis by blast
qed

text \<open>A codec whose output never fits the budget: the loop runs all its iterations.\<close>

lemma over_budget_once:
  "compressImageOnce over_budget_host u s q f =
     Inr \<lparr>dataUrl = ''data:image/jpeg;base64,/9j/4AAQ'', mimeType = f\<rparr>"
  by (simp add: compressImageOnce_def over_budget_host_def)

lemma over_budget_loop_length:
  "n \<le> 10 \<Longrightarrow>
   length (snd (compress_loop over_budget_host u f 4 s q
      \<lparr>dataUrl = ''data:image/jpeg;base64,/9j/4AAQ'', mimeType = f\<rparr> n)) = 10 - n"
proof (induction "10 - n" arbitrary: n s q)
  case 0
  then show ?case
    by (subst compress_loop.simps) (simp add: MAX_ATTEMPTS_def)
next
  case (Suc k)
  then have "n < 10" by simp
  moreover have "length (snd (compress_loop over_budget_host u f 4 s' q'
      \<lparr>dataUrl = ''data:image/jpeg;base64,/9j/4AAQ'', mimeType = f\<rparr> (Suc n))) = 10 - Suc n"
    for s' q'
    using Suc by (intro Suc.hyps(1)) auto
  ultimately show ?case
    by (subst compress_loop.simps)
       (simp add: over_budget_once size_big Let_def case_prod_beta MAX_ATTEMPTS_def)
qed

lemma over_budget_length:
  "length (snd (compressImage over_budget_host ''data:image/png;base64,iVBORw0K''
      (budget_options 0.9 4))) = 11"
  using over_budget_loop_length[of 0 "''data:image/png;base64,iVBORw0K''" Jpeg 1 "0.9"]
  by (simp add: compressImage_def budget_options_def over_budget_once Let_def case_prod_beta)

text \<open>
  Claim C6 as stated fails on the number of attempts: with a budget of 4 and a codec whose
  output always measures 8, \<open>compressImageOnce\<close> is called 11 times, not at most 10.
\<close>

theorem compressImage_ten_attempts_counterexample:
  "maxSizeBytes (budget_options 0.9 4) = Some 4 \<and>
   \<not> length (snd (compressImage over_budget_host ''data:image/png;base64,iVBORw0K''
        (budget_options 0.9 4))) \<le> 10"
  using over_budget_length by (simp add: budget_options_def)

theorem compressImage_attempt_bounds_witness:
  "maxSizeBytes (budget_options 0.9 4) = Some 4 \<and> (4::real) \<noteq> 0 \<and>
   length (snd (compressImage over_budget_host ''data:image/png;base64,iVBORw0K''
      (budget_options 0.9 4))) \<le> 11 \<and>
   0.2 \<le> att_quality (last (snd (compressImage over_budget_host
      ''data:image/png;base64,iVBORw0K'' (budget_options 0.9 4)))) \<and>
   0.3 \<le> att_scale (last (snd (compressImage over_budget_host
      ''data:image/png;base64,iVBORw0K'' (budget_options 0.9 4))))"
proof -
  have m: "maxSizeBytes (budget_options 0.9 4) = Some 4" and nz: "(4::real) \<noteq> 0"
    by (simp_all add: budget_options_def)
  let ?run = "compressImage over_budget_host ''data:image/png;base64,iVBORw0K'' (budget_options 0.9 4)"
  note tr = compressImage_trace(1)[OF m nz surjective_pairing[of ?run]]
  note th = compressImage_attempt_bounds[OF m nz surjective_pairing[of ?run]]
  from tr obtain rest where run:
    "snd ?run =
     \<lparr>att_scale = 1, att_quality = 0.9,
      att_result = compressImageOnce over_budget_host ''data:image/png;base64,iVBORw0K'' 1 0.9 Jpeg\<rparr>
     # rest"
    by (auto simp: budget_options_def)
  then have hd: "att_quality (hd (snd ?run)) = 0.9" "att_scale (hd (snd ?run)) = 1"
    by simp_all
  from run have "last (snd ?run) \<in> set (snd ?run)"
    by (intro last_in_set) simp
  with th have "min (att_quality (hd (snd ?run))) 0.2 \<le> att_quality (last (snd ?run)) \<and>
                min (att_scale (hd (snd ?run))) 0.3 \<le> att_scale (last (snd ?run))"
    by blast
  with th m nz show ?thesis unfolding hd by simp
qed

section \<open>Properties of stitching\<close>

lemma stitch_parts_loop:
  "stitch_parts h H parts (cv, errs) = (cv', errs') \<Longrightarrow>
   canvas_width cv' = canvas_width cv \<and> canvas_height cv' = canvas_height cv \<and>
   ops cv' = ops cv @ List.map_filter (part_draw h H) parts \<and>
   length errs' = length errs + length (filter (\<lambda>p. isl (decode h (part_dataUrl p))) parts)"
proof (induction parts arbitrary: cv errs)
  case Nil
  then show ?case by simp
next
  case (Cons part parts)
  show ?case
  proof (cases "decode h (part_dataUrl part)")
    case (Inl e)
    with Cons.prems have
      "stitch_parts h H parts (cv, errs @ [''Error stitching image part: '' @ e]) = (cv', errs')"
      by simp
    from Cons.IH[OF this] Inl show ?thesis
      by (simp add: part_draw_def)
  next
    case (Inr img)
    have clip: "(if part_y part + real (bmp_height img) > H then H - part_y part
                 else real (bmp_height img)) = clipped_height img (part_y part) H"
      by (simp add: clipped_height_def min_def)
    show ?thesis
    proof (cases "clipped_height img (part_y part) H \<le> 0")
      case True
      with Cons.prems Inr clip have "stitch_parts h H parts (cv, errs) = (cv', errs')"
        by (simp add: Let_def)
      from Cons.IH[OF this] Inr True show ?thesis
        by (simp add: part_draw_def)
    next
      case False
      with Cons.prems Inr clip have
        "stitch_parts h H parts
           (cv\<lparr>ops := ops cv @ [DrawImage img 0 0 (real (bmp_width img))
                    (clipped_height img (part_y part) H) 0 (part_y part) (real (bmp_width img))
                    (clipped_height img (part_y part) H)]\<rparr>, errs) = (cv', errs')"
        by (simp add: Let_def)
      from Cons.IH[OF this] Inr False show ?thesis
        by (simp add: part_draw_def)
    qed
  qed
qed

lemma part_draw_shape:
  "d \<in> set (List.map_filter (part_draw h H) parts) \<Longrightarrow>
   \<exists>p \<in> set parts. \<exists>img. decode h (part_dataUrl p) = Inr img \<and>
      0 < clipped_height img (part_y p) H \<and>
      d = DrawImage img 0 0 (real (bmp_width img)) (clipped_height img (part_y p) H)
            0 (part_y p) (real (bmp_width img)) (clipped_height img (part_y p) H)"
proof -
  assume "d \<in> set (List.map_filter (part_draw h H) parts)"
  then obtain p where p: "p \<in> set parts" "part_draw h H p = Some d"
    by (auto simp: List.map_filter_def)
  from p(2) obtain img where "decode h (part_dataUrl p) = Inr img"
    "\<not> clipped_height img (part_y p) H \<le> 0"
    "d = DrawImage img 0 0 (real (bmp_width img)) (clipped_height img (part_y p) H)
            0 (part_y p) (real (bmp_width img)) (clipped_height img (part_y p) H)"
    by (cases "decode h (part_dataUrl p)") (auto simp: part_draw_def split: if_splits)
  with p(1) show ?thesis by force
qed

text \<open>
  Claim C8. When the canvas gives a 2d context, \<open>stitchImages\<close> returns a canvas of
  exactly the requested width and height; its first drawing call fills the whole canvas
  with white; the drawing calls after it are, in the order of the parts, one draw for each
  part that decodes and whose clipped height is positive, at \<open>(0, y)\<close> of the part, with
  the source height clipped so that the draw ends at or above the total height; a part
  whose clipped height is not positive contributes no draw; a part that fails to decode
  contributes one line on the console and no draw. The only failure of the whole call is
  a missing 2d context.
\<close>

theorem stitchImages_best_effort:
  "(context2d h \<longrightarrow>
      (\<exists>cv errs. stitchImages h parts W H = Inr (cv, errs) \<and>
         canvas_width cv = W \<and> canvas_height cv = H \<and>
         ops cv = FillRect ''#FFFFFF'' 0 0 W H # List.map_filter (part_draw h H) parts \<and>
         (\<forall>img sx sy sw sh dx dy dw dh.
            DrawImage img sx sy sw sh dx dy dw dh \<in> set (ops cv) \<longrightarrow>
              sx = 0 \<and> sy = 0 \<and> dx = 0 \<and> dh = sh \<and> 0 < sh \<and> sh \<le> real (bmp_height img) \<and>
              dy + dh \<le> H \<and>
              (\<exists>p \<in> set parts. dy = part_y p \<and> decode h (part_dataUrl p) = Inr img)) \<and>
         length errs = length (filter (\<lambda>p. isl (decode h (part_dataUrl p))) parts))) \<and>
   (\<forall>e. stitchImages h parts W H = Inl e \<longrightarrow> \<not> context2d h)"
proof (intro conjI impI allI)
  assume ctx: "context2d h"
  obtain cv errs where
    run: "stitch_parts h H parts
            (\<lparr>canvas_width = W, canvas_height = H, ops = [FillRect ''#FFFFFF'' 0 0 W H]\<rparr>, []) =
          (cv, errs)"
    by (cases "stitch_parts h H parts
            (\<lparr>canvas_width = W, canvas_height = H, ops = [FillRect ''#FFFFFF'' 0 0 W H]\<rparr>, [])")
  from ctx run have res: "stitchImages h parts W H = Inr (cv, errs)"
    by (simp add: stitchImages_def Let_def)
  note loop = stitch_parts_loop[OF run]
  have draws: "\<forall>img sx sy sw sh dx dy dw dh.
            DrawImage img sx sy sw sh dx dy dw dh \<in> set (ops cv) \<longrightarrow>
              sx = 0 \<and> sy = 0 \<and> dx = 0 \<and> dh = sh \<and> 0 < sh \<and> sh \<le> real (bmp_height img) \<and>
              dy + dh \<le> H \<and>
              (\<exists>p \<in> set parts. dy = part_y p \<and> decode h (part_dataUrl p) = Inr img)"
  proof (intro allI impI)
    fix img sx sy sw sh dx dy dw dh
    assume "DrawImage img sx sy sw sh dx dy dw dh \<in> set (ops cv)"
    with loop have "DrawImage img sx sy sw sh dx dy dw dh \<in> set (List.map_filter (part_draw h H) parts)"
      by simp
    from part_draw_shape[OF this]
    show "sx = 0 \<and> sy = 0 \<and> dx = 0 \<and> dh = sh \<and> 0 < sh \<and> sh \<le> real (bmp_height img) \<and>
              dy + dh \<le> H \<and>
              (\<exists>p \<in> set parts. dy = part_y p \<and> decode h (part_dataUrl p) = Inr img)"
      by (auto simp: clipped_height_def)
  qed
  from res loop draws
  show "\<exists>cv errs. stitchImages h parts W H = Inr (cv, errs) \<and>
         canvas_width cv = W \<and> canvas_height cv = H \<and>
         ops cv = FillRect ''#FFFFFF'' 0 0 W H # List.map_filter (part_draw h H) parts \<and>
         (\<forall>img sx sy sw sh dx dy dw dh.
            DrawImage img sx sy sw sh dx dy dw dh \<in> set (ops cv) \<longrightarrow>
              sx = 0 \<and> sy = 0 \<and> dx = 0 \<and> dh = sh \<and> 0 < sh \<and> sh \<le> real (bmp_height img) \<and>
              dy + dh \<le> H \<and>
              (\<exists>p \<in> set parts. dy = part_y p \<and> decode h (part_dataUrl p) = Inr img)) \<and>
         length errs = length (filter (\<lambda>p. isl (decode h (part_dataUrl p))) parts)"
    by auto
next
  fix e assume "stitchImages h parts W H = Inl e"
  then show "\<not> context2d h"
    by (auto simp: stitchImages_def Let_def split: if_splits)
qed

lemma page_stitch_run:
  "stitchImages page_host page_parts 100 180 =
     Inr (\<lparr>canvas_width = 100, canvas_height = 180,
           ops = [FillRect ''#FFFFFF'' 0 0 100 180,
                  DrawImage \<lparr>bmp_width = 100, bmp_height = 100\<rparr> 0 0 100 100 0 0 100 100,
                  DrawImage \<lparr>bmp_width = 100, bmp_height = 100\<rparr> 0 0 100 30 0 150 100 30]\<rparr>,
          [''Error stitching image part: The source image could not be decoded''])"
  by (simp add: stitchImages_def page_host_def page_parts_def Let_def)

theorem stitchImages_best_effort_witness:
  "context2d page_host \<and>
   stitchImages page_host page_parts 100 180 =
     Inr (\<lparr>canvas_width = 100, canvas_height = 180,
           ops = [FillRect ''#FFFFFF'' 0 0 100 180,
                  DrawImage \<lparr>bmp_width = 100, bmp_height = 100\<rparr> 0 0 100 100 0 0 100 100,
                  DrawImage \<lparr>bmp_width = 100, bmp_height = 100\<rparr> 0 0 100 30 0 150 100 30]\<rparr>,
          [''Error stitching image part: The source image could not be decoded'']) \<and>
   List.map_filter (part_draw page_host 180) page_parts =
     [DrawImage \<lparr>bmp_width = 100, bmp_height = 100\<rparr> 0 0 100 100 0 0 100 100,
      DrawImage \<lparr>bmp_width = 100, bmp_height = 100\<rparr> 0 0 100 30 0 150 100 30]"
proof -
  have ctx: "context2d page_host" by (simp add: page_host_def)
  from stitchImages_best_effort[of page_host page_parts 100 180] ctx
  show ?thesis unfolding page_stitch_run by auto
qed

section \<open>Properties of cropping\<close>

text \<open>\<open>cropAndResizeImage\<close> on an image that decodes, in terms of the clamped rectangle.\<close>

lemma cropAndResizeImage_unfold:
  assumes "decode h url = Inr img"
  shows "cropAndResizeImage h url r dpr tw th =
    (case clamped_rect img r of (cx, cy, cw, ch) \<Rightarrow>
       if cw \<le> 0 \<or> ch \<le> 0 then Inl InvalidCropSize
       else if \<not> context2d h then Inl ''Unable to get canvas context''
       else Inr \<lparr>canvas_width =
                   (case tw of None \<Rightarrow> cw
                    | Some t \<Rightarrow> if t = 0 then cw else t * (case dpr of None \<Rightarrow> 1 | Some d \<Rightarrow> d)),
                 canvas_height =
                   (case th of None \<Rightarrow> ch
                    | Some t \<Rightarrow> if t = 0 then ch else t * (case dpr of None \<Rightarrow> 1 | Some d \<Rightarrow> d)),
                 ops = [DrawImage img cx cy cw ch 0 0
                   (case tw of None \<Rightarrow> cw
                    | Some t \<Rightarrow> if t = 0 then cw else t * (case dpr of None \<Rightarrow> 1 | Some d \<Rightarrow> d))
                   (case th of None \<Rightarrow> ch
                    | Some t \<Rightarrow> if t = 0 then ch else t * (case dpr of None \<Rightarrow> 1 | Some d \<Rightarrow> d))]\<rparr>)"
proof -
  have w: "(if (if rect_x r < 0 then 0 else rect_x r) +
               (if rect_x r < 0 then rect_width r + rect_x r else rect_width r)
               > real (bmp_width img)
            then real (bmp_width img) - (if rect_x r < 0 then 0 else rect_x r)
            else (if rect_x r < 0 then rect_width r + rect_x r else rect_width r)) =
           min (rect_x r + rect_width r) (real (bmp_width img)) - max 0 (rect_x r)"
    by (simp add: min_def max_def)
  have h: "(if (if rect_y r < 0 then 0 else rect_y r) +
               (if rect_y r < 0 then rect_height r + rect_y r else rect_height r)
               > real (bmp_height img)
            then real (bmp_height img) - (if rect_y r < 0 then 0 else rect_y r)
            else (if rect_y r < 0 then rect_height r + rect_y r else rect_height r)) =
           min (rect_y r + rect_height r) (real (bmp_height img)) - max 0 (rect_y r)"
    by (simp add: min_def max_def)
  have x: "(if rect_x r < 0 then 0 else rect_x r) = max 0 (rect_x r)"
    and y: "(if rect_y r < 0 then 0 else rect_y r) = max 0 (rect_y r)"
    by (simp_all add: max_def)
  show ?thesis
    unfolding cropAndResizeImage_def clamped_rect_def InvalidCropSize_def assms
    apply (simp only: sum.case Let_def prod.case if_distrib[of fst] if_distrib[of snd] 
         split_beta fst_conv snd_conv)
    apply (simp only: w h x y)
    apply (simp split: option.splits)
    done
qed

text \<open>
  Claim C7. For a source image that decodes, with the clamped rectangle
  \<open>(cx, cy, cw, ch)\<close> of the request (a negative origin moved to 0 with the size reduced
  by as much, the far edge cut at the edge of the raster): \<open>cropAndResizeImage\<close> fails
  with the invalid-crop-size error if and only if \<open>cw \<le> 0\<close> or \<open>ch \<le> 0\<close>; whenever it
  succeeds, the source region it draws is exactly the clamped rectangle, which lies
  inside the raster; it succeeds whenever the clamped sizes are positive and the canvas
  gives a context; and a rectangle wholly outside the raster yields the invalid-crop-size
  error.
\<close>

theorem cropAndResizeImage_clamps:
  assumes "decode h url = Inr img"
  shows "(case clamped_rect img r of (cx, cy, cw, ch) \<Rightarrow>
      (cropAndResizeImage h url r dpr tw th = Inl InvalidCropSize \<longleftrightarrow> cw \<le> 0 \<or> ch \<le> 0) \<and>
      (\<forall>c. cropAndResizeImage h url r dpr tw th = Inr c \<longrightarrow>
         (\<exists>dw dh. ops c = [DrawImage img cx cy cw ch 0 0 dw dh]) \<and>
         0 \<le> cx \<and> 0 < cw \<and> cx + cw \<le> real (bmp_width img) \<and>
         0 \<le> cy \<and> 0 < ch \<and> cy + ch \<le> real (bmp_height img)) \<and>
      (0 < cw \<and> 0 < ch \<and> context2d h \<longrightarrow>
         (\<exists>c. cropAndResizeImage h url r dpr tw th = Inr c))) \<and>
    (real (bmp_width img) \<le> rect_x r \<or> rect_x r + rect_width r \<le> 0 \<or>
     real (bmp_height img) \<le> rect_y r \<or> rect_y r + rect_height r \<le> 0 \<longrightarrow>
       cropAndResizeImage h url r dpr tw th = Inl InvalidCropSize)"
proof -
  obtain cx cy cw ch where c: "clamped_rect img r = (cx, cy, cw, ch)"
    by (cases "clamped_rect img r") auto
  note u = cropAndResizeImage_unfold[OF assms, of r dpr tw th, unfolded c prod.case]
  have bounds: "0 \<le> cx" "cx + cw \<le> real (bmp_width img)" "0 \<le> cy" "cy + ch \<le> real (bmp_height img)"
    using c by (auto simp: clamped_rect_def)
  have distinct: "InvalidCropSize \<noteq> ''Unable to get canvas context''"
    by (simp add: InvalidCropSize_def)
  have iff: "cropAndResizeImage h url r dpr tw th = Inl InvalidCropSize \<longleftrightarrow> cw \<le> 0 \<or> ch \<le> 0"
    using distinct by (simp add: u)
  have region: "\<forall>c. cropAndResizeImage h url r dpr tw th = Inr c \<longrightarrow>
         (\<exists>dw dh. ops c = [DrawImage img cx cy cw ch 0 0 dw dh]) \<and>
         0 \<le> cx \<and> 0 < cw \<and> cx + cw \<le> real (bmp_width img) \<and>
         0 \<le> cy \<and> 0 < ch \<and> cy + ch \<le> real (bmp_height img)"
    using bounds by (auto simp: u split: if_splits)
  have ok: "0 < cw \<and> 0 < ch \<and> context2d h \<longrightarrow> (\<exists>c. cropAndResizeImage h url r dpr tw th = Inr c)"
    by (simp add: u)
  have outside: "real (bmp_width img) \<le> rect_x r \<or> rect_x r + rect_width r \<le> 0 \<or>
     real (bmp_height img) \<le> rect_y r \<or> rect_y r + rect_height r \<le> 0 \<longrightarrow>
       cropAndResizeImage h url r dpr tw th = Inl InvalidCropSize"
  proof
    assume "real (bmp_width img) \<le> rect_x r \<or> rect_x r + rect_width r \<le> 0 \<or>
     real (bmp_height img) \<le> rect_y r \<or> rect_y r + rect_height r \<le> 0"
    with c have "cw \<le> 0 \<or> ch \<le> 0"
      by (auto simp: clamped_rect_def)
    with iff show "cropAndResizeImage h url r dpr tw th = Inl InvalidCropSize" by simp
  qed
  from iff region ok outside show ?thesis
    unfolding c prod.case by blast
qed

theorem cropAndResizeImage_clamps_witness:
  "decode square_host ''data:image/png;base64,iVBORw0K'' = Inr \<lparr>bmp_width = 100, bmp_height = 100\<rparr> \<and>
   clamped_rect \<lparr>bmp_width = 100, bmp_height = 100\<rparr>
     \<lparr>rect_x = - 10, rect_y = 0, rect_width = 50, rect_height = 50\<rparr> = (0, 0, 40, 50) \<and>
   cropAndResizeImage square_host ''data:image/png;base64,iVBORw0K''
     \<lparr>rect_x = - 10, rect_y = 0, rect_width = 50, rect_height = 50\<rparr> None None None =
     Inr \<lparr>canvas_width = 40, canvas_height = 50,
          ops = [DrawImage \<lparr>bmp_width = 100, bmp_height = 100\<rparr> 0 0 40 50 0 0 40 50]\<rparr> \<and>
   cropAndResizeImage square_host ''data:image/png;base64,iVBORw0K''
     \<lparr>rect_x = - 10, rect_y = 0, rect_width = 50, rect_height = 50\<rparr> None None None \<noteq>
     Inl InvalidCropSize"
proof -
  have d: "decode square_host ''data:image/png;base64,iVBORw0K'' =
             Inr \<lparr>bmp_width = 100, bmp_height = 100\<rparr>"
    by (simp add: square_host_def)
  have c: "clamped_rect \<lparr>bmp_width = 100, bmp_height = 100\<rparr>
     \<lparr>rect_x = - 10, rect_y = 0, rect_width = 50, rect_height = 50\<rparr> = (0, 0, 40, 50)"
    by (simp add: clamped_rect_def)
  have run: "cropAndResizeImage square_host ''data:image/png;base64,iVBORw0K''
     \<lparr>rect_x = - 10, rect_y = 0, rect_width = 50, rect_height = 50\<rparr> None None None =
     Inr \<lparr>canvas_width = 40, canvas_height = 50,
          ops = [DrawImage \<lparr>bmp_width = 100, bmp_height = 100\<rparr> 0 0 40 50 0 0 40 50]\<rparr>"
    by (simp add: cropAndResizeImage_def square_host_def Let_def)
  from cropAndResizeImage_clamps[OF d,
      of "\<lparr>rect_x = - 10, rect_y = 0, rect_width = 50, rect_height = 50\<rparr>" None None None]
  show ?thesis unfolding c prod.case using d c run by simp
qed

section \<open>Properties of the file upload tool\<close>

subsection \<open>The world after each step\<close>

lemma fold_onTabRemoved:
  "activeDebuggers (fold onTabRemoved ts w) x = (if x \<in> set ts then None else activeDebuggers w x)"
  "calls (fold onTabRemoved ts w) = calls w"
  "console (fold onTabRemoved ts w) = console w"
  "awaits (fold onTabRemoved ts w) = awaits w"
  by (induction ts arbitrary: w) (auto simp: onTabRemoved_def cleanupDebugger_def)

lemma await_simps:
  "activeDebuggers (await env w) x =
     (if x \<in> set (removed_tabs env (awaits w)) then None else activeDebuggers w x)"
  "calls (await env w) = calls w"
  "console (await env w) = console w"
  "awaits (await env w) = Suc (awaits w)"
  by (simp_all add: await_def fold_onTabRemoved)

lemma emit_simps:
  "activeDebuggers (emit c w) = activeDebuggers w"
  "calls (emit c w) = calls w @ [c]"
  "console (emit c w) = console w"
  "awaits (emit c w) = awaits w"
  by (simp_all add: emit_def)

lemma log_line_simps:
  "activeDebuggers (log_line l w) = activeDebuggers w"
  "calls (log_line l w) = calls w"
  "awaits (log_line l w) = awaits w"
  by (simp_all add: log_line_def)

lemma sendCommand_simps:
  "activeDebuggers (sendCommand env t c w) x =
     (if x \<in> set (removed_tabs env (awaits w)) then None else activeDebuggers w x)"
  "calls (sendCommand env t c w) = calls w @ [DebuggerSendCommand t c]"
  "awaits (sendCommand env t c w) = Suc (awaits w)"
  by (simp_all add: sendCommand_def await_simps emit_simps)

lemma detachDebugger_simps:
  "activeDebuggers (detachDebugger env t w) x =
     (if x = t then None
      else if activeDebuggers w t \<noteq> None \<and> x \<in> set (removed_tabs env (awaits w)) then None
      else activeDebuggers w x)"
  "calls (detachDebugger env t w) =
     (if activeDebuggers w t = None then calls w else calls w @ [DebuggerDetach t])"
  by (auto simp: detachDebugger_def Let_def await_simps emit_simps log_line_simps
      split: option.splits)

subsection \<open>Entries of the map and calls on the browser, piece by piece\<close>

lemma upload_commands_entries:
  "upload_commands env args t files w = (c, w') \<Longrightarrow> activeDebuggers w x = None \<Longrightarrow>
   activeDebuggers w' x = None"
  unfolding upload_commands_def Let_def
  by (auto simp: sendCommand_simps detachDebugger_simps split: option.splits sum.splits if_splits)

lemma upload_commands_returned:
  "upload_commands env args t files w = (Returned r, w') \<Longrightarrow>
   activeDebuggers w' t = None \<and>
   r = createSuccessResponse
         \<lparr>ud_success = True, ud_message = ''File(s) uploaded successfully'',
          ud_files = files, ud_selector = selector args, ud_fileCount = length files\<rparr>"
  unfolding upload_commands_def Let_def
  by (auto simp: sendCommand_simps detachDebugger_simps split: option.splits sum.splits if_splits)

lemma upload_commands_calls:
  "upload_commands env args t files w = (c, w') \<Longrightarrow>
   calls w' = calls w @ drop (length (calls w)) (calls w') \<and>
   (\<forall>k \<in> set (drop (length (calls w)) (calls w')).
      (\<exists>m. k = DebuggerSendCommand t m) \<or> k = DebuggerDetach t)"
  unfolding upload_commands_def Let_def
  by (auto simp: sendCommand_simps detachDebugger_simps split: option.splits sum.splits if_splits)

lemma upload_commands_attached:
  "upload_commands env args t files w = (c, w') \<Longrightarrow>
   \<forall>k. t \<notin> set (removed_tabs env k) \<Longrightarrow> activeDebuggers w t \<noteq> None \<Longrightarrow>
   (case c of
      Returned r \<Rightarrow>
        last (calls w') = DebuggerDetach t \<and>
        filter (\<lambda>k. k = DebuggerDetach t) (drop (length (calls w)) (calls w')) = [DebuggerDetach t]
    | Thrown e \<Rightarrow>
        activeDebuggers w' t \<noteq> None \<and>
        filter (\<lambda>k. k = DebuggerDetach t) (drop (length (calls w)) (calls w')) = [])"
  unfolding upload_commands_def Let_def
  by (auto simp: sendCommand_simps detachDebugger_simps split: option.splits sum.splits if_splits)

lemma attachDebugger_entries:
  "attachDebugger env t w = (res, w') \<Longrightarrow> activeDebuggers w x = None \<Longrightarrow>
   x \<noteq> t \<or> isl res \<Longrightarrow> activeDebuggers w' x = None"
  unfolding attachDebugger_def Let_def
  by (auto simp: await_simps emit_simps log_line_simps split: option.splits sum.splits if_splits)

lemma attachDebugger_calls:
  "attachDebugger env t w = (res, w') \<Longrightarrow>
   calls w' = calls w @ [GetTargets] \<or> calls w' = calls w @ [GetTargets, DebuggerAttach t]"
  unfolding attachDebugger_def Let_def
  by (auto simp: await_simps emit_simps log_line_simps split: option.splits sum.splits if_splits)

lemma prepare_files_entries:
  "prepare_files env args w = (fs, w') \<Longrightarrow> activeDebuggers w x = None \<Longrightarrow>
   activeDebuggers w' x = None"
  unfolding prepare_files_def stage_files_def Let_def
  by (auto simp: await_simps emit_simps split: option.splits if_splits)

lemma prepare_files_calls:
  "prepare_files env args w = (fs, w') \<Longrightarrow>
   calls w' = calls w \<or> (\<exists>rid u b n. calls w' = calls w @ [NativeRequest rid u b n])"
  unfolding prepare_files_def stage_files_def Let_def
  by (auto simp: await_simps emit_simps split: option.splits if_splits)

lemma prepare_files_single:
  "prepare_files env args w = (Some files, w') \<Longrightarrow>
   truthy (filePath args) \<or> truthy (fileUrl args) \<or> truthy (base64Data args) \<Longrightarrow>
   \<exists>p. files = [p] \<and> p \<noteq> [] \<and>
     (if truthy (filePath args) then filePath args = Some p
      else awaited (prepareFileFromRemote (new_request_id env) (stage_events env)) = Some p)"
  unfolding prepare_files_def stage_files_def Let_def
  by (auto simp: truthy_def split: option.splits if_splits)

text \<open>The \<open>try\<close> block case by case: where it can end, and with which world.\<close>

lemma execute_try_cases:
  assumes "execute_try env args w = (c, tabOpt, w')"
  obtains
    (query_rejects) e where "tabs_query env = Inl e" "c = Thrown e" "tabOpt = None"
      "w' = await env (emit TabsQuery w)"
  | (no_tab) tabs where "tabs_query env = Inr tabs" "first_tab_id tabs = None"
      "c = Returned (createErrorResponse ''No active tab found'')" "tabOpt = None"
      "w' = await env (emit TabsQuery w)"
  | (not_prepared) tabs t where "tabs_query env = Inr tabs" "first_tab_id tabs = Some t"
      "prepare_files env args (await env (emit TabsQuery w)) = (None, w')"
      "c = Returned (createErrorResponse ''Failed to prepare file for upload'')" "tabOpt = Some t"
  | (not_attached) tabs t files w2 e where "tabs_query env = Inr tabs" "first_tab_id tabs = Some t"
      "prepare_files env args (await env (emit TabsQuery w)) = (Some files, w2)"
      "attachDebugger env t w2 = (Inl e, w')" "c = Thrown e" "tabOpt = Some t"
  | (commands) tabs t files w2 w3 where "tabs_query env = Inr tabs" "first_tab_id tabs = Some t"
      "prepare_files env args (await env (emit TabsQuery w)) = (Some files, w2)"
      "attachDebugger env t w2 = (Inr (), w3)"
      "upload_commands env args t files w3 = (c, w')" "tabOpt = Some t"
proof (cases "tabs_query env")
  case (Inl e)
  with assms query_rejects show ?thesis by (auto simp: execute_try_def Let_def)
next
  case (Inr tabs)
  note tq = this
  show ?thesis
  proof (cases "first_tab_id tabs")
    case None
    with assms tq no_tab show ?thesis by (auto simp: execute_try_def Let_def)
  next
    case (Some t)
    note ft = this
    obtain fs w2 where pf: "prepare_files env args (await env (emit TabsQuery w)) = (fs, w2)"
      by (cases "prepare_files env args (await env (emit TabsQuery w))")
    show ?thesis
    proof (cases fs)
      case None
      with assms tq ft pf
      have "c = Returned (createErrorResponse ''Failed to prepare file for upload'')"
        "tabOpt = Some t" "w2 = w'"
        by (auto simp: execute_try_def Let_def)
      with tq ft pf None show ?thesis by (intro not_prepared[of tabs t]) auto
    next
      case (Some files)
      note fs = this
      obtain res w3 where at: "attachDebugger env t w2 = (res, w3)"
        by (cases "attachDebugger env t w2")
      show ?thesis
      proof (cases res)
        case (Inl e)
        with assms tq ft pf fs at have "c = Thrown e" "tabOpt = Some t" "w3 = w'"
          by (auto simp: execute_try_def Let_def)
        with tq ft pf fs at Inl show ?thesis by (intro not_attached[of tabs t files w2 e]) auto
      next
        case (Inr u)
        obtain c4 w4 where uc: "upload_commands env args t files w3 = (c4, w4)"
          by (cases "upload_commands env args t files w3")
        with assms tq ft pf fs at Inr have "c = c4" "tabOpt = Some t" "w' = w4"
          by (auto simp: execute_try_def Let_def)
        with tq ft pf fs at Inr uc show ?thesis by (intro commands[of tabs t files w2 w3]) auto
      qed
    qed
  qed
qed

lemma execute_try_entries:
  assumes "execute_try env args w = (c, tabOpt, w')" and "activeDebuggers w x = None"
    and "tabOpt \<noteq> Some x \<or> (\<exists>r. c = Returned r)"
  shows "activeDebuggers w' x = None"
proof -
  have w1: "activeDebuggers (await env (emit TabsQuery w)) x = None"
    using assms(2) by (simp add: await_simps emit_simps)
  from assms(1) show ?thesis
  proof (cases rule: execute_try_cases)
    case (query_rejects e)
    with w1 show ?thesis by simp
  next
    case (no_tab tabs)
    with w1 show ?thesis by simp
  next
    case (not_prepared tabs t)
    from prepare_files_entries[OF not_prepared(3) w1] show ?thesis .
  next
    case (not_attached tabs t files w2 e)
    have "activeDebuggers w2 x = None" by (rule prepare_files_entries[OF not_attached(3) w1])
    from attachDebugger_entries[OF not_attached(4) this] show ?thesis by simp
  next
    case (commands tabs t files w2 w3)
    have w2: "activeDebuggers w2 x = None" by (rule prepare_files_entries[OF commands(3) w1])
    show ?thesis
    proof (cases "x = t")
      case False
      from attachDebugger_entries[OF commands(4) w2] False have "activeDebuggers w3 x = None"
        by simp
      from upload_commands_entries[OF commands(5) this] show ?thesis .
    next
      case True
      with assms(3) commands(6) obtain r where "c = Returned r" by auto
      with commands(5) upload_commands_returned[of env args t files w3 r w'] True
      show ?thesis by simp
    qed
  qed
qed

lemma execute_entries:
  assumes "execute env args w = (r, w')" and "activeDebuggers w x = None"
  shows "activeDebuggers w' x = None"
proof (cases "selector args = [] \<or>
    (\<not> truthy (filePath args) \<and> \<not> truthy (fileUrl args) \<and> \<not> truthy (base64Data args))")
  case True
  with assms show ?thesis by (auto simp: execute_def split: if_splits)
next
  case False
  obtain c tabOpt w1 where et: "execute_try env args w = (c, tabOpt, w1)"
    by (cases "execute_try env args w") auto
  show ?thesis
  proof (cases c)
    case (Returned r')
    with assms(1) False et have "w' = w1" by (auto simp: execute_def)
    with execute_try_entries[OF et assms(2)] Returned show ?thesis by simp
  next
    case (Thrown err)
    show ?thesis
    proof (cases "tabOpt = Some x")
      case True
      with assms(1) False et Thrown show ?thesis
        by (auto simp: execute_def Let_def log_line_simps detachDebugger_simps split: if_splits)
    next
      case False
      with execute_try_entries[OF et assms(2)] have "activeDebuggers w1 x = None" by simp
      with assms(1) \<open>\<not> (selector args = [] \<or> _)\<close> et Thrown show ?thesis
        by (cases tabOpt)
           (auto simp: execute_def Let_def log_line_simps detachDebugger_simps split: if_splits)
    qed
  qed
qed

lemma run_actions_entries:
  "activeDebuggers w x = None \<Longrightarrow> activeDebuggers (run_actions acts w) x = None"
proof (induction acts arbitrary: w)
  case Nil
  then show ?case by simp
next
  case (Cons a acts)
  show ?case
  proof (cases a)
    case (UploadFile env args)
    have "activeDebuggers (snd (execute env args w)) x = None"
      using execute_entries[OF surjective_pairing Cons.prems] .
    from Cons.IH[OF this] UploadFile show ?thesis by simp
  next
    case (TabRemoved t)
    have "activeDebuggers (onTabRemoved t w) x = None"
      using Cons.prems by (simp add: onTabRemoved_def cleanupDebugger_def)
    from Cons.IH[OF this] TabRemoved show ?thesis by simp
  qed
qed

subsection \<open>Validation of the arguments and the files uploaded\<close>

lemmas world_defs = await_def emit_def log_line_def sendCommand_def detachDebugger_def
  attachDebugger_def onTabRemoved_def cleanupDebugger_def

lemmas execute_defs = execute_def execute_try_def prepare_files_def stage_files_def
  upload_commands_def first_tab_id_def truthy_def createErrorResponse_def
  createSuccessResponse_def

lemma form_upload_both:
  "execute form_env both_args initial_world =
     (\<lparr>content = [Serialized \<lparr>ud_success = True, ud_message = ''File(s) uploaded successfully'',
                    ud_files = [''/tmp/a.png''], ud_selector = ''#f'', ud_fileCount = 1\<rparr>],
       isError = False\<rparr>,
      \<lparr>activeDebuggers = Map.empty,
       calls = [TabsQuery, GetTargets, DebuggerAttach 7,
                DebuggerSendCommand 7 DOM_enable,
                DebuggerSendCommand 7 Runtime_enable,
                DebuggerSendCommand 7 DOM_getDocument,
                DebuggerSendCommand 7 (DOM_querySelector 1 ''#f''),
                DebuggerSendCommand 7 (DOM_describeNode 42),
                DebuggerSendCommand 7 (DOM_setFileInputFiles 42 [''/tmp/a.png'']),
                DebuggerSendCommand 7 (Runtime_evaluate ''#f''),
                DebuggerDetach 7],
       console = [''Debugger attached to tab'', ''Debugger detached from tab''],
       awaits = 11\<rparr>)"
  by (simp add: execute_defs world_defs form_env_def both_args_def local_args_def
      initial_world_def Let_def)

lemma attachDebugger_outcomes:
  assumes "attachDebugger env t w = (res, w')"
  shows "(calls w' = calls w @ [GetTargets] \<and>
          (\<forall>x. activeDebuggers w x = None \<longrightarrow> activeDebuggers w' x = None)) \<or>
         (calls w' = calls w @ [GetTargets, DebuggerAttach t] \<and>
          ((res = Inr () \<and> attach_rejects env = None \<and> activeDebuggers w' t = Some True) \<or>
           (\<exists>e. res = Inl e \<and> attach_rejects env = Some e)))"
  using assms unfolding attachDebugger_def Let_def
  by (auto simp: await_simps emit_simps log_line_simps log_line_def
      split: option.splits sum.splits if_splits)

lemma execute_try_calls:
  assumes "execute_try env args w = (c, tabOpt, w')"
  shows "\<exists>cs. calls w' = calls w @ TabsQuery # cs"
proof -
  have w1: "calls (await env (emit TabsQuery w)) = calls w @ [TabsQuery]"
    by (simp add: await_simps emit_simps)
  from assms show ?thesis
  proof (cases rule: execute_try_cases)
    case (query_rejects e)
    with w1 show ?thesis by simp
  next
    case (no_tab tabs)
    with w1 show ?thesis by simp
  next
    case (not_prepared tabs t)
    from prepare_files_calls[OF not_prepared(3)] w1 show ?thesis by auto
  next
    case (not_attached tabs t files w2 e)
    from prepare_files_calls[OF not_attached(3)] attachDebugger_calls[OF not_attached(4)] w1
    show ?thesis by auto
  next
    case (commands tabs t files w2 w3)
    from upload_commands_calls[OF commands(5)] obtain cs3 where "calls w' = calls w3 @ cs3"
      by blast
    with prepare_files_calls[OF commands(3)] attachDebugger_calls[OF commands(4)] w1
    show ?thesis by auto
  qed
qed

lemma execute_calls:
  assumes "selector args \<noteq> []"
    and "truthy (filePath args) \<or> truthy (fileUrl args) \<or> truthy (base64Data args)"
  shows "\<exists>cs. calls (snd (execute env args w)) = calls w @ TabsQuery # cs"
proof -
  obtain c tabOpt w1 where et: "execute_try env args w = (c, tabOpt, w1)"
    by (cases "execute_try env args w") auto
  from execute_try_calls[OF et] obtain cs where cs: "calls w1 = calls w @ TabsQuery # cs"
    by blast
  show ?thesis
  proof (cases c)
    case (Returned r)
    with assms et cs show ?thesis by (auto simp: execute_def)
  next
    case (Thrown e)
    with assms et cs show ?thesis
      by (cases tabOpt)
         (auto simp: execute_def Let_def log_line_simps detachDebugger_simps)
  qed
qed

lemma upload_commands_selector:
  assumes "selector args' = selector args"
  shows "upload_commands env args' t files w = upload_commands env args t files w"
  unfolding upload_commands_def assms ..

lemma execute_local_path_only:
  assumes "truthy (filePath args)"
  shows "execute env args w = execute env (args\<lparr>fileUrl := None, base64Data := None\<rparr>) w"
proof -
  have pf: "prepare_files env (args\<lparr>fileUrl := None, base64Data := None\<rparr>) w1 =
            prepare_files env args w1" for w1
    using assms by (auto simp: prepare_files_def truthy_def split: option.splits)
  have uc: "upload_commands env (args\<lparr>fileUrl := None, base64Data := None\<rparr>) t files w1 =
            upload_commands env args t files w1" for t files w1
    by (rule upload_commands_selector) simp
  have "execute_try env (args\<lparr>fileUrl := None, base64Data := None\<rparr>) w = execute_try env args w"
    unfolding execute_try_def pf uc ..
  with assms show ?thesis
    by (simp add: execute_def)
qed

lemma execute_multiple_ignored:
  "execute env (args\<lparr>multiple := m\<rparr>) w = execute env args w"
proof -
  have pf: "prepare_files env (args\<lparr>multiple := m\<rparr>) w1 = prepare_files env args w1" for w1
    by (auto simp: prepare_files_def stage_files_def split: option.splits)
  have uc: "upload_commands env (args\<lparr>multiple := m\<rparr>) t files w1 =
            upload_commands env args t files w1" for t files w1
    by (rule upload_commands_selector) simp
  have "execute_try env (args\<lparr>multiple := m\<rparr>) w = execute_try env args w"
    unfolding execute_try_def pf uc ..
  then show ?thesis
    by (simp add: execute_def)
qed

text \<open>
  Claim C2, as the code has it. A call of \<open>execute\<close> with an empty selector, or with none of
  \<open>filePath\<close>, \<open>fileUrl\<close>, \<open>base64Data\<close> present (absent or empty), returns the validation
  error and makes no call on the browser. A call with a selector and at least one source,
  however many, passes the validation and goes on to query the active tab; when a local
  path is among the sources it is used and the other sources are ignored.
\<close>

theorem upload_validation:
  "(selector args = [] \<longrightarrow>
      execute env args w = (createErrorResponse ''Selector is required for file upload'', w)) \<and>
   (selector args \<noteq> [] \<and>
    \<not> truthy (filePath args) \<and> \<not> truthy (fileUrl args) \<and> \<not> truthy (base64Data args) \<longrightarrow>
      execute env args w =
        (createErrorResponse ''One of filePath, fileUrl, or base64Data must be provided'', w)) \<and>
   (selector args \<noteq> [] \<and>
    (truthy (filePath args) \<or> truthy (fileUrl args) \<or> truthy (base64Data args)) \<longrightarrow>
      (\<exists>cs. calls (snd (execute env args w)) = calls w @ TabsQuery # cs)) \<and>
   (truthy (filePath args) \<longrightarrow>
      execute env args w = execute env (args\<lparr>fileUrl := None, base64Data := None\<rparr>) w)"
  using execute_calls[of args env w] execute_local_path_only[of args env w]
  by (simp add: execute_def)

text \<open>
  Claim C2 as stated fails for two sources: a call that supplies both a local path and a
  remote URL is not rejected; it uploads the local path.
\<close>

theorem upload_two_sources_counterexample:
  "selector both_args \<noteq> [] \<and>
   filePath both_args = Some ''/tmp/a.png'' \<and> fileUrl both_args = Some ''http://x/y.bin'' \<and>
   \<not> isError (fst (execute form_env both_args initial_world)) \<and>
   calls (snd (execute form_env both_args initial_world)) =
     [TabsQuery, GetTargets, DebuggerAttach 7,
      DebuggerSendCommand 7 DOM_enable,
      DebuggerSendCommand 7 Runtime_enable,
      DebuggerSendCommand 7 DOM_getDocument,
      DebuggerSendCommand 7 (DOM_querySelector 1 ''#f''),
      DebuggerSendCommand 7 (DOM_describeNode 42),
      DebuggerSendCommand 7 (DOM_setFileInputFiles 42 [''/tmp/a.png'']),
      DebuggerSendCommand 7 (Runtime_evaluate ''#f''),
      DebuggerDetach 7]"
  by (simp add: form_upload_both) (simp add: both_args_def local_args_def)

theorem upload_validation_witness:
  "selector (local_args\<lparr>selector := []\<rparr>) = [] \<and>
   execute form_env (local_args\<lparr>selector := []\<rparr>) initial_world =
     (createErrorResponse ''Selector is required for file upload'', initial_world) \<and>
   selector (local_args\<lparr>filePath := Some []\<rparr>) \<noteq> [] \<and>
   \<not> truthy (filePath (local_args\<lparr>filePath := Some []\<rparr>)) \<and>
   execute form_env (local_args\<lparr>filePath := Some []\<rparr>) initial_world =
     (createErrorResponse ''One of filePath, fileUrl, or base64Data must be provided'',
      initial_world) \<and>
   truthy (filePath both_args) \<and>
   execute form_env both_args initial_world =
     execute form_env (both_args\<lparr>fileUrl := None, base64Data := None\<rparr>) initial_world"
  using upload_validation[of "local_args\<lparr>selector := []\<rparr>" form_env initial_world]
    upload_validation[of "local_args\<lparr>filePath := Some []\<rparr>" form_env initial_world]
    upload_validation[of both_args form_env initial_world]
  by (simp add: local_args_def both_args_def truthy_def)

text \<open>
  Claim C10. Every successful call of \<open>execute\<close> reports exactly one file and the count 1:
  the local path when one is given, else the path staged by the native host; and the
  option \<open>multiple\<close> changes neither the result nor anything the call does.
\<close>

theorem upload_single_file:
  "(\<not> isError (fst (execute env args w)) \<longrightarrow>
      (\<exists>p. p \<noteq> [] \<and>
         fst (execute env args w) =
           createSuccessResponse
             \<lparr>ud_success = True, ud_message = ''File(s) uploaded successfully'',
              ud_files = [p], ud_selector = selector args, ud_fileCount = 1\<rparr> \<and>
         (if truthy (filePath args) then filePath args = Some p
          else awaited (prepareFileFromRemote (new_request_id env) (stage_events env)) = Some p))) \<and>
   execute env (args\<lparr>multiple := m\<rparr>) w = execute env args w"
proof (intro conjI impI)
  assume ok: "\<not> isError (fst (execute env args w))"
  then have valid: "selector args \<noteq> []"
    "truthy (filePath args) \<or> truthy (fileUrl args) \<or> truthy (base64Data args)"
    by (auto simp: execute_def createErrorResponse_def split: if_splits)
  obtain c tabOpt w1 where et: "execute_try env args w = (c, tabOpt, w1)"
    by (cases "execute_try env args w") auto
  from ok valid et obtain r where c: "c = Returned r" and r: "fst (execute env args w) = r"
    by (cases c) (auto simp: execute_def Let_def createErrorResponse_def)
  from et show "\<exists>p. p \<noteq> [] \<and>
         fst (execute env args w) =
           createSuccessResponse
             \<lparr>ud_success = True, ud_message = ''File(s) uploaded successfully'',
              ud_files = [p], ud_selector = selector args, ud_fileCount = 1\<rparr> \<and>
         (if truthy (filePath args) then filePath args = Some p
          else awaited (prepareFileFromRemote (new_request_id env) (stage_events env)) = Some p)"
  proof (cases rule: execute_try_cases)
    case (query_rejects e)
    with c show ?thesis by simp
  next
    case (no_tab tabs)
    with c r ok show ?thesis by (auto simp: createErrorResponse_def)
  next
    case (not_prepared tabs t)
    with c r ok show ?thesis by (auto simp: createErrorResponse_def)
  next
    case (not_attached tabs t files w2 e)
    with c show ?thesis by simp
  next
    case (commands tabs t files w2 w3)
    from prepare_files_single[OF commands(3) valid(2)] obtain p where
      p: "files = [p]" "p \<noteq> []"
         "if truthy (filePath args) then filePath args = Some p
          else awaited (prepareFileFromRemote (new_request_id env) (stage_events env)) = Some p"
      by blast
    from commands(5) c upload_commands_returned[of env args t files w3 r w1]
    have "r = createSuccessResponse
         \<lparr>ud_success = True, ud_message = ''File(s) uploaded successfully'',
          ud_files = files, ud_selector = selector args, ud_fileCount = length files\<rparr>"
      by simp
    with p r show ?thesis by auto
  qed
next
  show "execute env (args\<lparr>multiple := m\<rparr>) w = execute env args w"
    by (rule execute_multiple_ignored)
qed

theorem upload_single_file_witness:
  "\<not> isError (fst (execute form_env local_args initial_world)) \<and>
   fst (execute form_env local_args initial_world) =
     createSuccessResponse
       \<lparr>ud_success = True, ud_message = ''File(s) uploaded successfully'',
        ud_files = [''/tmp/a.png''], ud_selector = ''#f'', ud_fileCount = 1\<rparr> \<and>
   execute form_env (local_args\<lparr>multiple := Some True\<rparr>) initial_world =
     execute form_env local_args initial_world"
proof -
  have ok: "\<not> isError (fst (execute form_env local_args initial_world))"
    by (simp add: execute_defs world_defs form_env_def local_args_def initial_world_def Let_def)
  from upload_single_file[of form_env local_args initial_world "Some True"] ok
  show ?thesis
    by (auto simp: local_args_def truthy_def)
qed

subsection \<open>Staging\<close>

lemmas stager_defs = prepareFileFromRemote_def stager_start_def handleMessage_def resolve_def
  clearTimeout_def removeListener_def console_error_def truthy_def

text \<open>
  Claim C3 fails on the timeout path. When the timer fires with no matching response, the
  promise resolves with \<open>null\<close>, one listener was added and one message sent, but
  \<open>removeListener\<close> has not been called: \<open>handleMessage\<close> is still a listener of
  \<open>chrome.runtime.onMessage\<close>. The timer's callback only logs and resolves, while the
  callbacks for a matching response and for a rejected send both remove the listener.
\<close>

theorem stage_timeout_keeps_listener:
  "resolved (prepareFileFromRemote rid [TimerFires]) = Some None \<and>
   awaited (prepareFileFromRemote rid [TimerFires]) = None \<and>
   addListener_calls (prepareFileFromRemote rid [TimerFires]) = 1 \<and>
   removeListener_calls (prepareFileFromRemote rid [TimerFires]) = 0 \<and>
   listener_attached (prepareFileFromRemote rid [TimerFires])"
  by (simp add: stager_defs awaited_def)

text \<open>What does hold of staging: one listener and one outbound message per call, whatever
  happens; a promise that is still pending has its timer armed; a matching response and
  a rejected send each clear the timer, remove the listener once and resolve.\<close>

lemma stage_step_counts:
  "addListener_calls (stage_step st ev) = addListener_calls st \<and>
   sendMessage_calls (stage_step st ev) = sendMessage_calls st \<and>
   requestId (stage_step st ev) = requestId st"
  by (cases ev) (simp_all add: stager_defs Let_def)

lemma stager_single_attempt:
  "addListener_calls (prepareFileFromRemote rid evs) = 1 \<and>
   sendMessage_calls (prepareFileFromRemote rid evs) = 1"
proof -
  have "addListener_calls (foldl stage_step st evs) = addListener_calls st \<and>
        sendMessage_calls (foldl stage_step st evs) = sendMessage_calls st" for st
    by (induction evs arbitrary: st) (simp_all add: stage_step_counts)
  then show ?thesis
    by (simp add: prepareFileFromRemote_def stager_start_def)
qed

lemma stage_step_pending:
  "(resolved st = None \<longrightarrow> timer_armed st \<and> listener_attached st) \<Longrightarrow>
   resolved (stage_step st ev) = None \<longrightarrow>
     timer_armed (stage_step st ev) \<and> listener_attached (stage_step st ev)"
  by (cases ev) (auto simp: stager_defs Let_def)

lemma stager_pending_has_timer:
  "resolved (prepareFileFromRemote rid evs) = None \<longrightarrow>
   timer_armed (prepareFileFromRemote rid evs) \<and> listener_attached (prepareFileFromRemote rid evs)"
proof -
  have "(resolved st = None \<longrightarrow> timer_armed st \<and> listener_attached st) \<Longrightarrow>
        resolved (foldl stage_step st evs) = None \<longrightarrow>
        timer_armed (foldl stage_step st evs) \<and> listener_attached (foldl stage_step st evs)" for st
  proof (induction evs arbitrary: st)
    case Nil
    then show ?case by simp
  next
    case (Cons ev evs)
    from Cons.IH[OF stage_step_pending[OF Cons.prems]] show ?case by simp
  qed
  then show ?thesis
    by (simp add: prepareFileFromRemote_def stager_start_def)
qed

lemma stage_matching_response:
  "prepareFileFromRemote rid
     [Incoming \<lparr>msg_type = ''file_operation_response'', msg_responseToRequestId = Some rid,
               msg_payload_success = True, msg_payload_filePath = Some (c # path)\<rparr>] =
   \<lparr>requestId = rid, timer_armed = False, listener_attached = False,
    resolved = Some (Some (c # path)), addListener_calls = 1, removeListener_calls = 1,
    sendMessage_calls = 1, stager_errors = []\<rparr>"
  by (simp add: stager_defs Let_def)

lemma stage_send_rejected:
  "prepareFileFromRemote rid [SendRejects e] =
   \<lparr>requestId = rid, timer_armed = False, listener_attached = False,
    resolved = Some None, addListener_calls = 1, removeListener_calls = 1,
    sendMessage_calls = 1,
    stager_errors = [''Error sending message to background: '' @ e]\<rparr>"
  by (simp add: stager_defs Let_def)

subsection \<open>Tab removal\<close>

text \<open>
  Claim C9. After the \<open>onRemoved\<close> listener has run for a tab, \<open>activeDebuggers\<close> has no
  entry for that tab, whatever the state before, and the entries of other tabs are as
  they were. In particular, for every notification delivered while a call of \<open>execute\<close>
  awaits the browser, the removed tab has no entry when the call resumes.
\<close>

theorem tab_removal_clears_entry:
  "activeDebuggers (onTabRemoved tabId w) tabId = None \<and>
   (\<forall>x. x \<noteq> tabId \<longrightarrow> activeDebuggers (onTabRemoved tabId w) x = activeDebuggers w x) \<and>
   (\<forall>x \<in> set (removed_tabs env (awaits w)). activeDebuggers (await env w) x = None)"
  by (simp add: onTabRemoved_def cleanupDebugger_def await_simps)

lemma closing_attached:
  "attachDebugger closing_env 7 (await closing_env (emit TabsQuery initial_world)) =
     (Inr (),
      \<lparr>activeDebuggers = [7 \<mapsto> True], calls = [TabsQuery, GetTargets, DebuggerAttach 7],
       console = [''Debugger attached to tab''], awaits = 3\<rparr>)"
  by (simp add: world_defs closing_env_def form_env_def initial_world_def Let_def)

theorem tab_removal_clears_entry_witness:
  "activeDebuggers (snd (attachDebugger closing_env 7
      (await closing_env (emit TabsQuery initial_world)))) 7 = Some True \<and>
   7 \<in> set (removed_tabs closing_env 3) \<and>
   activeDebuggers (sendCommand closing_env 7 DOM_enable
      (snd (attachDebugger closing_env 7
         (await closing_env (emit TabsQuery initial_world))))) 7 = None \<and>
   activeDebuggers (onTabRemoved 7
      (snd (attachDebugger closing_env 7
         (await closing_env (emit TabsQuery initial_world))))) 7 = None"
proof -
  let ?w = "snd (attachDebugger closing_env 7 (await closing_env (emit TabsQuery initial_world)))"
  have r: "7 \<in> set (removed_tabs closing_env (awaits (emit (DebuggerSendCommand 7 DOM_enable) ?w)))"
    unfolding closing_attached by (simp add: emit_def closing_env_def)
  from tab_removal_clears_entry[where tabId = 7 and w = ?w and env = closing_env]
    tab_removal_clears_entry[where tabId = 7 and env = closing_env
      and w = "emit (DebuggerSendCommand 7 DOM_enable) ?w"] r
  show ?thesis
    unfolding sendCommand_def closing_attached by (simp add: closing_env_def emit_def)
qed

subsection \<open>Attach and detach\<close>

text \<open>A call of \<open>execute\<close> that attached the debugger to a tab that is not removed
  meanwhile ends with the detach, whether it returns a success or an error.\<close>

lemma execute_attach_detach:
  assumes run: "execute env args w = (r, w')"
    and free: "activeDebuggers w t = None"
    and stay: "\<forall>k. t \<notin> set (removed_tabs env k)"
    and ok: "attach_rejects env = None"
    and att: "DebuggerAttach t \<in> set (drop (length (calls w)) (calls w'))"
  shows "last (calls w') = DebuggerDetach t \<and>
         filter (\<lambda>k. k = DebuggerDetach t) (drop (length (calls w)) (calls w')) = [DebuggerDetach t]"
proof -
  have valid: "\<not> (selector args = [] \<or>
      (\<not> truthy (filePath args) \<and> \<not> truthy (fileUrl args) \<and> \<not> truthy (base64Data args)))"
    using run att by (auto simp: execute_def split: if_splits)
  obtain c tabOpt w1 where et: "execute_try env args w = (c, tabOpt, w1)"
    by (cases "execute_try env args w") auto
  have fin: "w' = (case c of
                 Returned r \<Rightarrow> w1
               | Thrown e \<Rightarrow>
                   (case tabOpt of
                      None \<Rightarrow> log_line (''Error in file upload operation: '' @ e) w1
                    | Some tabId \<Rightarrow>
                        if activeDebuggers w1 tabId \<noteq> None
                        then detachDebugger env tabId
                               (log_line (''Error in file upload operation: '' @ e) w1)
                        else log_line (''Error in file upload operation: '' @ e) w1))"
    using run valid et
    by (auto simp: execute_def Let_def log_line_simps split: completion.splits option.splits)
  have q: "calls (await env (emit TabsQuery w)) = calls w @ [TabsQuery]"
    by (simp add: await_simps emit_simps)
  from et show ?thesis
  proof (cases rule: execute_try_cases)
    case (query_rejects e)
    with fin q att show ?thesis by (simp add: log_line_simps)
  next
    case (no_tab tabs)
    with fin q att show ?thesis by simp
  next
    case (not_prepared tabs t')
    with fin prepare_files_calls[OF not_prepared(3)] q att show ?thesis by auto
  next
    case (not_attached tabs t' files w2 e)
    from attachDebugger_outcomes[OF not_attached(4)] ok
    have "calls w1 = calls w2 @ [GetTargets]" by auto
    with fin not_attached(5,6) prepare_files_calls[OF not_attached(3)] q att show ?thesis
      by (auto simp: log_line_simps detachDebugger_simps split: if_splits)
  next
    case (commands tabs t' files w2 w3)
    from upload_commands_calls[OF commands(5)] obtain cs3 where
      cs3: "calls w1 = calls w3 @ cs3"
        "\<forall>k \<in> set cs3. (\<exists>m. k = DebuggerSendCommand t' m) \<or> k = DebuggerDetach t'"
      by (metis append_eq_conv_conj)
    from prepare_files_calls[OF commands(3)] q obtain pre where
      pre: "calls w2 = calls w @ pre" "DebuggerAttach t \<notin> set pre"
        "filter (\<lambda>k. k = DebuggerDetach t) pre = []"
      by auto
    have tail: "\<exists>post. calls w' = calls w1 @ post \<and> (post = [] \<or> post = [DebuggerDetach t'])"
      using fin commands(6)
      by (cases c) (auto simp: log_line_simps detachDebugger_simps)
    from attachDebugger_outcomes[OF commands(4)]
    consider (already) "calls w3 = calls w2 @ [GetTargets]"
      | (fresh) "calls w3 = calls w2 @ [GetTargets, DebuggerAttach t']"
          "activeDebuggers w3 t' = Some True"
      by auto
    then show ?thesis
    proof cases
      case already
      with cs3 pre tail att show ?thesis by auto
    next
      case fresh
      note a = this
      with cs3 pre tail att have tt: "t' = t" by auto
      from a(2) tt have entry: "activeDebuggers w3 t \<noteq> None" by simp
      note u = upload_commands_attached[OF commands(5)[unfolded tt] stay entry]
      have new: "drop (length (calls w3)) (calls w1) = cs3" using cs3(1) by simp
      show ?thesis
      proof (cases c)
        case (Returned r')
        with fin have "w' = w1" by simp
        with u Returned new a(1) pre cs3(1) show ?thesis by simp
      next
        case (Thrown e)
        with u have e1: "activeDebuggers w1 t \<noteq> None" and f: "filter (\<lambda>k. k = DebuggerDetach t) cs3 = []"
          using new by simp_all
        from fin Thrown commands(6) tt e1
        have "calls w' = calls w1 @ [DebuggerDetach t]"
          by (simp add: log_line_simps detachDebugger_simps)
        with f a(1) pre cs3(1) show ?thesis by simp
      qed
    qed
  qed
qed

text \<open>
  Claim C4. A tab without an entry in \<open>activeDebuggers\<close> has none after any sequence of
  calls of \<open>execute\<close> (each run to its return, successful or not) and tab removals; from
  the empty map of a new tool the map is empty again after any such sequence; the same
  holds of a single call. When a call attaches the debugger to a tab and the attach
  succeeds (the tab not being removed during the call), the last call it makes on the
  browser before returning is the detach of that tab, and it detaches exactly once: on
  success, and on every error after the attach (a rejected command, an element not found,
  an element of the wrong kind).
\<close>

theorem upload_sessions_balance:
  "(\<forall>x. activeDebuggers w x = None \<longrightarrow> activeDebuggers (run_actions acts w) x = None) \<and>
   activeDebuggers (run_actions acts initial_world) = Map.empty \<and>
   (\<forall>x. activeDebuggers w x = None \<longrightarrow> activeDebuggers (snd (execute env args w)) x = None) \<and>
   (activeDebuggers w t = None \<and> attach_rejects env = None \<and>
    (\<forall>k. t \<notin> set (removed_tabs env k)) \<and>
    DebuggerAttach t \<in> set (drop (length (calls w)) (calls (snd (execute env args w)))) \<longrightarrow>
      last (calls (snd (execute env args w))) = DebuggerDetach t \<and>
      filter (\<lambda>k. k = DebuggerDetach t)
        (drop (length (calls w)) (calls (snd (execute env args w)))) = [DebuggerDetach t])"
proof (intro conjI allI impI)
  fix x assume "activeDebuggers w x = None"
  then show "activeDebuggers (run_actions acts w) x = None" by (rule run_actions_entries)
next
  have "activeDebuggers (run_actions acts initial_world) x = None" for x
    by (rule run_actions_entries) (simp add: initial_world_def)
  then show "activeDebuggers (run_actions acts initial_world) = Map.empty" by (intro ext)
next
  fix x assume "activeDebuggers w x = None"
  with execute_entries[OF surjective_pairing]
  show "activeDebuggers (snd (execute env args w)) x = None" .
next
  assume a: "activeDebuggers w t = None \<and> attach_rejects env = None \<and>
    (\<forall>k. t \<notin> set (removed_tabs env k)) \<and>
    DebuggerAttach t \<in> set (drop (length (calls w)) (calls (snd (execute env args w))))"
  have p: "last (calls (snd (execute env args w))) = DebuggerDetach t \<and>
         filter (\<lambda>k. k = DebuggerDetach t)
           (drop (length (calls w)) (calls (snd (execute env args w)))) = [DebuggerDetach t]"
    using a by (intro execute_attach_detach[OF surjective_pairing]) simp_all
  from p show "last (calls (snd (execute env args w))) = DebuggerDetach t" by blast
  from p show "filter (\<lambda>k. k = DebuggerDetach t)
        (drop (length (calls w)) (calls (snd (execute env args w)))) = [DebuggerDetach t]"
    by blast
qed

lemma text_input_upload:
  "execute text_input_env local_args initial_world =
     (createErrorResponse
        (''Error uploading file: Element with selector '' @ quoted ''#f'' @
         '' is not a file input (type='' @ quoted ''file'' @ '')''),
      \<lparr>activeDebuggers = Map.empty,
       calls = [TabsQuery, GetTargets, DebuggerAttach 7,
                DebuggerSendCommand 7 DOM_enable,
                DebuggerSendCommand 7 Runtime_enable,
                DebuggerSendCommand 7 DOM_getDocument,
                DebuggerSendCommand 7 (DOM_querySelector 1 ''#f''),
                DebuggerSendCommand 7 (DOM_describeNode 42),
                DebuggerDetach 7],
       console = [''Debugger attached to tab'',
                  ''Error in file upload operation: Element with selector '' @ quoted ''#f'' @
                    '' is not a file input (type='' @ quoted ''file'' @ '')'',
                  ''Debugger detached from tab''],
       awaits = 9\<rparr>)"
  by (simp add: execute_defs world_defs text_input_env_def form_env_def local_args_def
      initial_world_def quoted_def Let_def ex_bool_eq)

theorem upload_sessions_balance_witness:
  "activeDebuggers initial_world 7 = None \<and> attach_rejects text_input_env = None \<and>
   removed_tabs text_input_env = (\<lambda>k. []) \<and>
   isError (fst (execute text_input_env local_args initial_world)) \<and>
   DebuggerAttach 7 \<in> set (calls (snd (execute text_input_env local_args initial_world))) \<and>
   last (calls (snd (execute text_input_env local_args initial_world))) = DebuggerDetach 7 \<and>
   activeDebuggers (snd (execute text_input_env local_args initial_world)) 7 = None \<and>
   activeDebuggers
     (run_actions [UploadFile form_env local_args, UploadFile text_input_env local_args,
                   TabRemoved 7, UploadFile inspected_env local_args] initial_world) =
     Map.empty"
proof -
  have h: "activeDebuggers initial_world 7 = None" "attach_rejects text_input_env = None"
    "\<forall>k. 7 \<notin> set (removed_tabs text_input_env k)"
    "calls initial_world = []"
    by (auto simp: initial_world_def text_input_env_def form_env_def)
  have a: "DebuggerAttach 7 \<in> set (calls (snd (execute text_input_env local_args initial_world)))"
    and e: "isError (fst (execute text_input_env local_args initial_world))"
    unfolding text_input_upload by (simp_all add: createErrorResponse_def)
  have n: "removed_tabs text_input_env = (\<lambda>k. [])"
    by (simp add: text_input_env_def form_env_def)
  from upload_sessions_balance[of initial_world
      "[UploadFile form_env local_args, UploadFile text_input_env local_args,
        TabRemoved 7, UploadFile inspected_env local_args]" text_input_env local_args 7] h a e n
  show ?thesis by simp
qed

subsection \<open>A tab attached by someone else\<close>

lemma attachDebugger_conflict:
  assumes "getTargets env = Inr targets"
    and "find (\<lambda>i. tgt_tabId i = Some t \<and> tgt_attached i) targets = Some owner"
    and "tgt_extensionId owner \<noteq> Some (runtime_id env)"
  shows "attachDebugger env t w =
           (Inl ''Debugger is already attached to this tab by another extension or DevTools'',
            await env (emit GetTargets w))"
  using assms by (simp add: attachDebugger_def Let_def)

lemma attachDebugger_same_owner:
  assumes "getTargets env = Inr targets"
    and "find (\<lambda>i. tgt_tabId i = Some t \<and> tgt_attached i) targets = Some owner"
    and "tgt_extensionId owner = Some (runtime_id env)"
  shows "attachDebugger env t w =
           (Inr (), log_line ''Debugger already attached by this extension''
                      (await env (emit GetTargets w)))"
  using assms by (simp add: attachDebugger_def Let_def)

lemma prepare_files_ready:
  assumes "truthy (filePath args) \<or>
           ((truthy (fileUrl args) \<or> truthy (base64Data args)) \<and>
            truthy (awaited (prepareFileFromRemote (new_request_id env) (stage_events env))))"
  shows "\<exists>files w'. prepare_files env args w = (Some files, w')"
  using assms unfolding prepare_files_def stage_files_def Let_def
  by (auto simp: truthy_def split: option.splits)

text \<open>
  Claim C5. Let the active tab be reported by \<open>getTargets\<close> as attached. If the owner is
  not this extension (another extension, or no extension id as for an inspector) and the
  tool has no entry for the tab, every call of \<open>execute\<close> returns an error and issues no
  debugger command (no attach, no command, no detach); a call that gets as far as the
  attach (selector present, file path at hand) returns the error saying that the
  debugger is already attached by another extension or DevTools. If the owner is this
  extension, \<open>attachDebugger\<close> succeeds with the one \<open>getTargets\<close> call and no attach call,
  and the map is as it would be after awaiting any other call.
\<close>

theorem upload_attachment_conflict:
  assumes "tabs_query env = Inr tabs" and "first_tab_id tabs = Some t"
    and "getTargets env = Inr targets"
    and "find (\<lambda>i. tgt_tabId i = Some t \<and> tgt_attached i) targets = Some owner"
  shows "(tgt_extensionId owner \<noteq> Some (runtime_id env) \<and> activeDebuggers w t = None \<longrightarrow>
            isError (fst (execute env args w)) \<and>
            (\<forall>k \<in> set (drop (length (calls w)) (calls (snd (execute env args w)))).
               \<not> debugger_command k) \<and>
            (selector args \<noteq> [] \<and>
             (truthy (filePath args) \<or>
              ((truthy (fileUrl args) \<or> truthy (base64Data args)) \<and>
               truthy (awaited (prepareFileFromRemote (new_request_id env) (stage_events env)))))
             \<longrightarrow>
               fst (execute env args w) =
                 createErrorResponse
                   (''Error uploading file: '' @
                    ''Debugger is already attached to this tab by another extension or DevTools''))) \<and>
         (tgt_extensionId owner = Some (runtime_id env) \<longrightarrow>
            fst (attachDebugger env t w) = Inr () \<and>
            calls (snd (attachDebugger env t w)) = calls w @ [GetTargets] \<and>
            (\<forall>x. activeDebuggers (snd (attachDebugger env t w)) x =
                  activeDebuggers (await env w) x))"
proof (intro conjI impI)
  assume own: "tgt_extensionId owner = Some (runtime_id env)"
  note s = attachDebugger_same_owner[OF assms(3,4) own, of w]
  show "fst (attachDebugger env t w) = Inr ()" by (simp add: s)
  show "calls (snd (attachDebugger env t w)) = calls w @ [GetTargets]"
    by (simp add: s log_line_simps await_simps emit_simps)
  show "\<forall>x. activeDebuggers (snd (attachDebugger env t w)) x = activeDebuggers (await env w) x"
    by (simp add: s log_line_simps await_simps emit_simps)
next
  assume other: "tgt_extensionId owner \<noteq> Some (runtime_id env) \<and> activeDebuggers w t = None"
  then have free: "activeDebuggers w t = None" by simp
  note conflict = attachDebugger_conflict[OF assms(3,4) other[THEN conjunct1]]
  obtain c tabOpt w1 where et: "execute_try env args w = (c, tabOpt, w1)"
    by (cases "execute_try env args w") auto
  have q: "calls (await env (emit TabsQuery w)) = calls w @ [TabsQuery]"
    "activeDebuggers (await env (emit TabsQuery w)) t = None"
    using free by (simp_all add: await_simps emit_simps)
  have all: "isError (fst (execute env args w)) \<and>
            (\<forall>k \<in> set (drop (length (calls w)) (calls (snd (execute env args w)))).
               \<not> debugger_command k) \<and>
            (selector args \<noteq> [] \<and>
             (truthy (filePath args) \<or>
              ((truthy (fileUrl args) \<or> truthy (base64Data args)) \<and>
               truthy (awaited (prepareFileFromRemote (new_request_id env) (stage_events env)))))
             \<longrightarrow>
               fst (execute env args w) =
                 createErrorResponse
                   (''Error uploading file: '' @
                    ''Debugger is already attached to this tab by another extension or DevTools''))"
  proof (cases "selector args = [] \<or>
      (\<not> truthy (filePath args) \<and> \<not> truthy (fileUrl args) \<and> \<not> truthy (base64Data args))")
    case True
    then show ?thesis
      by (auto simp: execute_def createErrorResponse_def)
  next
    case False
    from et show ?thesis
    proof (cases rule: execute_try_cases)
      case (query_rejects e)
      with assms(1) show ?thesis by simp
    next
      case (no_tab tabs')
      with assms(1,2) show ?thesis by simp
    next
      case (not_prepared tabs' t')
      from prepare_files_ready[of args env "await env (emit TabsQuery w)"] not_prepared(3)
      have "\<not> (truthy (filePath args) \<or>
              ((truthy (fileUrl args) \<or> truthy (base64Data args)) \<and>
               truthy (awaited (prepareFileFromRemote (new_request_id env) (stage_events env)))))"
        by auto
      with False et not_prepared prepare_files_calls[OF not_prepared(3)] q show ?thesis
        by (auto simp: execute_def createErrorResponse_def)
    next
      case (not_attached tabs' t' files w2 e)
      with assms(1,2) have tt: "t' = t" by simp
      from not_attached(4) conflict[of w2] tt
      have e: "e = ''Debugger is already attached to this tab by another extension or DevTools''"
        and w1: "w1 = await env (emit GetTargets w2)"
        by simp_all
      have "activeDebuggers w2 t = None"
        by (rule prepare_files_entries[OF not_attached(3) q(2)])
      then have "activeDebuggers w1 t = None"
        by (simp add: w1 await_simps emit_simps)
      with False et not_attached(5,6) tt e w1 prepare_files_calls[OF not_attached(3)] q(1)
      show ?thesis
        by (auto simp: execute_def Let_def createErrorResponse_def log_line_simps
            await_simps emit_simps)
    next
      case (commands tabs' t' files w2 w3)
      with assms(1,2) have "t' = t" by simp
      with commands(4) conflict[of w2] show ?thesis by simp
    qed
  qed
  from all show "isError (fst (execute env args w))" by blast
  from all show "\<forall>k \<in> set (drop (length (calls w)) (calls (snd (execute env args w)))).
               \<not> debugger_command k" by blast
  from all show "selector args \<noteq> [] \<and>
             (truthy (filePath args) \<or>
              ((truthy (fileUrl args) \<or> truthy (base64Data args)) \<and>
               truthy (awaited (prepareFileFromRemote (new_request_id env) (stage_events env)))))
             \<Longrightarrow>
               fst (execute env args w) =
                 createErrorResponse
                   (''Error uploading file: '' @
                    ''Debugger is already attached to this tab by another extension or DevTools'')"
    by blast
qed

lemma inspected_upload:
  "execute inspected_env local_args initial_world =
     (createErrorResponse
        ''Error uploading file: Debugger is already attached to this tab by another extension or DevTools'',
      \<lparr>activeDebuggers = Map.empty, calls = [TabsQuery, GetTargets],
       console = [''Error in file upload operation: Debugger is already attached to this tab by another extension or DevTools''],
       awaits = 2\<rparr>)"
  by (simp add: execute_defs world_defs inspected_env_def form_env_def local_args_def
      initial_world_def Let_def ex_bool_eq)

theorem upload_attachment_conflict_witness:
  "tabs_query inspected_env = Inr [Some 7] \<and> first_tab_id [Some 7] = Some 7 \<and>
   find (\<lambda>i. tgt_tabId i = Some 7 \<and> tgt_attached i)
     [\<lparr>tgt_tabId = Some 7, tgt_attached = True, tgt_extensionId = None\<rparr>] =
     Some \<lparr>tgt_tabId = Some 7, tgt_attached = True, tgt_extensionId = None\<rparr> \<and>
   fst (execute inspected_env local_args initial_world) =
     createErrorResponse
       ''Error uploading file: Debugger is already attached to this tab by another extension or DevTools'' \<and>
   calls (snd (execute inspected_env local_args initial_world)) = [TabsQuery, GetTargets] \<and>
   fst (attachDebugger own_env 7 initial_world) = Inr () \<and>
   calls (snd (attachDebugger own_env 7 initial_world)) = [GetTargets]"
proof -
  have i: "tabs_query inspected_env = Inr [Some 7]" "first_tab_id [Some 7] = Some 7"
    "getTargets inspected_env =
       Inr [\<lparr>tgt_tabId = Some 7, tgt_attached = True, tgt_extensionId = None\<rparr>]"
    "find (\<lambda>i. tgt_tabId i = Some 7 \<and> tgt_attached i)
       [\<lparr>tgt_tabId = Some 7, tgt_attached = True, tgt_extensionId = None\<rparr>] =
     Some \<lparr>tgt_tabId = Some 7, tgt_attached = True, tgt_extensionId = None\<rparr>"
    by (simp_all add: inspected_env_def form_env_def first_tab_id_def)
  have o: "tabs_query own_env = Inr [Some 7]"
    "getTargets own_env =
       Inr [\<lparr>tgt_tabId = Some 7, tgt_attached = True,
             tgt_extensionId = Some ''this-extension''\<rparr>]"
    "find (\<lambda>i. tgt_tabId i = Some 7 \<and> tgt_attached i)
       [\<lparr>tgt_tabId = Some 7, tgt_attached = True, tgt_extensionId = Some ''this-extension''\<rparr>] =
     Some \<lparr>tgt_tabId = Some 7, tgt_attached = True, tgt_extensionId = Some ''this-extension''\<rparr>"
    "runtime_id own_env = ''this-extension''"
    by (simp_all add: own_env_def form_env_def)
  note c = upload_attachment_conflict[OF i(1,2,3,4), of initial_world local_args]
  note s = upload_attachment_conflict[OF o(1) i(2) o(2,3), of initial_world local_args]
  have sel: "selector local_args \<noteq> []" "truthy (filePath local_args)"
    "activeDebuggers initial_world 7 = None" "calls initial_world = []"
    "runtime_id inspected_env = ''this-extension''"
    by (simp_all add: local_args_def truthy_def initial_world_def inspected_env_def form_env_def)
  from c s sel o(4) i show ?thesis unfolding inspected_upload by simp
qed

end
